theory Spec2Isabelle
  imports Main "HOL-Library.Sublist" "HOL-Library.AList"
begin

section \<open>aimaker: text extraction utilities (utils.py)\<close>

subsection \<open>Python string primitives used by the source\<close>

text \<open>
  \<open>str.find(sub, start)\<close>: the lowest index \<open>i \<ge> start\<close> at which \<open>sub\<close> occurs in
  \<open>s\<close>, or \<open>-1\<close>. \<open>find_aux\<close> scans the remaining suffix, carrying the index.
\<close>

fun find_aux :: "string \<Rightarrow> string \<Rightarrow> nat \<Rightarrow> int" where
  "find_aux sub [] i = (if sub = [] then int i else - 1)"
| "find_aux sub (c # cs) i =
     (if prefix sub (c # cs) then int i else find_aux sub cs (Suc i))"

text \<open>
  A negative \<open>start\<close> counts from the end and is clipped at \<open>0\<close>; a \<open>start\<close> beyond the
  end of \<open>s\<close> finds nothing, not even the empty string.
\<close>

definition find_str :: "string \<Rightarrow> string \<Rightarrow> int \<Rightarrow> int" where
  "find_str s sub start =
     (let n = int (length s);
          st = (if start < 0 then max (n + start) 0 else start)
      in if st > n then - 1 else find_aux sub (drop (nat st) s) (nat st))"

text \<open>\<open>s[a:b]\<close>: both bounds are normalised as Python does, then the slice is taken.\<close>

definition slice_index :: "nat \<Rightarrow> int \<Rightarrow> nat" where
  "slice_index n i = (if i < 0 then nat (max (int n + i) 0) else min (nat i) n)"

definition slice :: "string \<Rightarrow> int \<Rightarrow> int \<Rightarrow> string" where
  "slice s a b =
     (let lo = slice_index (length s) a; hi = slice_index (length s) b
      in take (hi - lo) (drop lo s))"

subsection \<open>extract_substring\<close>

definition extract_substring :: "string \<Rightarrow> string \<Rightarrow> string \<Rightarrow> string" where
  "extract_substring s start_marker end_marker =
     (let start = find_str s start_marker 0 + int (length start_marker);
          end = find_str s end_marker start
      in if start \<ge> int (length start_marker) \<and> end \<noteq> - 1
         then slice s start end
         else s)"

subsection \<open>Occurrences of a marker, stated independently of the scan\<close>

definition occurs_at :: "string \<Rightarrow> string \<Rightarrow> nat \<Rightarrow> bool" where
  "occurs_at s sub i \<longleftrightarrow> i \<le> length s \<and> prefix sub (drop i s)"

text \<open>
  \<open>i\<close> is the first index at or after \<open>k\<close> where \<open>sub\<close> occurs; and \<open>sub\<close> does not occur
  at or after \<open>k\<close> at all.
\<close>

definition first_occurrence_from :: "string \<Rightarrow> string \<Rightarrow> nat \<Rightarrow> nat \<Rightarrow> bool" where
  "first_occurrence_from s sub k i \<longleftrightarrow>
     k \<le> i \<and> occurs_at s sub i \<and> (\<forall>j \<in> set [k..<i]. \<not> occurs_at s sub j)"

definition absent_from :: "string \<Rightarrow> string \<Rightarrow> nat \<Rightarrow> bool" where
  "absent_from s sub k \<longleftrightarrow> (\<forall>j \<in> set [k..<Suc (length s)]. \<not> occurs_at s sub j)"

subsection \<open>Exceptions\<close>

text \<open>
  Every raise of the source and of the library calls it makes is a value of \<open>exn\<close>; the
  string is what \<open>str(e)\<close> gives. \<open>KeyboardInterrupt\<close> stands for the classes that derive
  from \<open>BaseException\<close> only, which \<open>except Exception\<close> lets through.
\<close>

datatype exn =
    SyntaxError string
  | ValueError string
  | ProviderError string
  | FileExistsError
  | FileNotFoundError
  | NotADirectoryError
  | IsADirectoryError
  | OSError
  | KeyboardInterrupt

fun is_Exception :: "exn \<Rightarrow> bool" where
  "is_Exception KeyboardInterrupt = False"
| "is_Exception _ = True"

fun str_of_exn :: "exn \<Rightarrow> string" where
  "str_of_exn (SyntaxError m) = m"
| "str_of_exn (ValueError m) = m"
| "str_of_exn (ProviderError m) = m"
| "str_of_exn FileExistsError = ''File exists''"
| "str_of_exn FileNotFoundError = ''No such file or directory''"
| "str_of_exn NotADirectoryError = ''Not a directory''"
| "str_of_exn IsADirectoryError = ''Is a directory''"
| "str_of_exn OSError = ''Invalid argument''"
| "str_of_exn KeyboardInterrupt = []"

subsection \<open>extract_single_function_name\<close>

text \<open>
  What \<open>ast.NodeVisitor\<close> sees of a syntax tree: the class name of a node, on which
  \<open>visit\<close> dispatches, its \<open>name\<close> attribute (empty for classes that have none) and its
  child nodes in field order, as \<open>ast.iter_child_nodes\<close> yields them.
\<close>

datatype ast = Node (cls: string) (name_attr: string) (child_nodes: "ast list")

text \<open>
  \<open>FunctionNameCollector.visit\<close>, threading \<open>self.function_names\<close>. The collector defines
  \<open>visit_FunctionDef\<close> only: a node of that class has its name appended and is then
  visited generically; a node of any other class goes to \<open>generic_visit\<close>, which visits
  the children in order.
\<close>

fun visit :: "ast \<Rightarrow> string list \<Rightarrow> string list" where
  "visit (Node c nm children) function_names =
     (if c = ''FunctionDef''
      then fold visit children (function_names @ [nm])
      else fold visit children function_names)"

text \<open>
  \<open>ast.parse\<close> is the interpreter's parser and is a parameter here: it returns the
  tree or raises. The result is \<open>Some\<close> name, or \<open>None\<close> as in the source.
\<close>

definition extract_single_function_name ::
  "(string \<Rightarrow> exn + ast) \<Rightarrow> string \<Rightarrow> exn + string option" where
  "extract_single_function_name parse code =
     (case parse code of
        Inl e \<Rightarrow> Inl e
      | Inr parsed_code \<Rightarrow>
          (let function_names = visit parsed_code []
           in if length function_names = 1 then Inr (Some (function_names ! 0))
              else Inr None))"

text \<open>
  The function definitions of a tree, stated without the visitor: the names of all
  nodes of class \<open>FunctionDef\<close> at any depth, and the number of nodes of a class.
\<close>

fun def_names :: "ast \<Rightarrow> string list" where
  "def_names (Node c nm children) =
     (if c = ''FunctionDef'' then [nm] else []) @ concat (map def_names children)"

fun count_cls :: "string \<Rightarrow> ast \<Rightarrow> nat" where
  "count_cls k (Node c nm children) =
     (if c = k then 1 else 0) + sum_list (map (count_cls k) children)"

text \<open>
  The trees CPython's \<open>ast.parse\<close> builds for a few sources (class names and children
  as \<open>ast.dump\<close> lists them); every other input is rejected. Used to run the functions
  on concrete inputs.
\<close>

definition leaf :: "string \<Rightarrow> ast" where
  "leaf c = Node c [] []"

definition src_def_foo :: string where
  "src_def_foo = ''def foo():'' @ [CHR 0x0A] @ '' pass''"

definition src_two_defs :: string where
  "src_two_defs = ''def a():pass'' @ [CHR 0x0A] @ ''def b():pass''"

definition src_nested_def :: string where
  "src_nested_def = ''def a():'' @ [CHR 0x0A] @ '' def b(): pass''"

definition FunctionDef :: "string \<Rightarrow> ast list \<Rightarrow> ast" where
  "FunctionDef nm body = Node ''FunctionDef'' nm (leaf ''arguments'' # body)"

definition parse_examples :: "string \<Rightarrow> exn + ast" where
  "parse_examples code =
     (if code = src_def_foo then
        Inr (Node ''Module'' [] [FunctionDef ''foo'' [leaf ''Pass'']])
      else if code = ''x = 1'' then
        Inr (Node ''Module'' []
              [Node ''Assign'' [] [Node ''Name'' [] [leaf ''Store''], leaf ''Constant'']])
      else if code = src_two_defs then
        Inr (Node ''Module'' []
              [FunctionDef ''a'' [leaf ''Pass''], FunctionDef ''b'' [leaf ''Pass'']])
      else if code = src_nested_def then
        Inr (Node ''Module'' []
              [FunctionDef ''a'' [FunctionDef ''b'' [leaf ''Pass'']]])
      else if code = ''async def foo(): pass'' then
        Inr (Node ''Module'' []
              [Node ''AsyncFunctionDef'' ''foo'' [leaf ''arguments'', leaf ''Pass'']])
      else Inl (SyntaxError ''invalid syntax (<unknown>, line 1)''))"

section \<open>Generation pipeline (main.py, client.py)\<close>

subsection \<open>Data model\<close>

record PythonFunction =
  name :: string
  content :: string

text \<open>The fields \<open>function\<close> and \<open>test\<close> of the source's \<open>PythonFunctionSuite\<close>.\<close>

record PythonFunctionSuite =
  suite_function :: PythonFunction
  suite_test :: PythonFunction

text \<open>
  The client and the logger of a \<open>PythonFileScript\<close> are shared with the package and
  live in the session state below; the script itself holds its suites and module name.
\<close>

record PythonFileScript =
  "functions" :: "PythonFunctionSuite list"
  "module_name" :: string

text \<open>One entry of a \<open>MessagesStack\<close>: the values under the keys \<open>role\<close> and \<open>content\<close>.\<close>

type_synonym message = "string \<times> string"

subsection \<open>Collaborators and session state\<close>

text \<open>
  \<open>OpenAIWrapper.complete\<close> is the model provider and \<open>ast.parse\<close> the interpreter:
  both are parameters. The provider's answer may differ from call to call, so it is
  given the number of calls made before; it returns the response text or raises.
  The sampling temperature is a constant of the call and is left out.
\<close>

record env =
  complete :: "nat \<Rightarrow> message list \<Rightarrow> string \<Rightarrow> exn + string"
  parse :: "string \<Rightarrow> exn + ast"

datatype level = ERROR | INFO

record session =
  calls :: nat
  log_records :: "(level \<times> string) list"

definition log_error :: "string \<Rightarrow> session \<Rightarrow> session" where
  "log_error m w = w\<lparr>log_records := log_records w @ [(ERROR, m)]\<rparr>"

definition log_info :: "string \<Rightarrow> session \<Rightarrow> session" where
  "log_info m w = w\<lparr>log_records := log_records w @ [(INFO, m)]\<rparr>"

subsection \<open>PythonFileScript\<close>

definition not_exactly_one :: string where
  "not_exactly_one =
     ''The generated Python code does not contain exactly one function definition.''"

text \<open>
  \<open>generate_python_code\<close>. The \<open>try\<close> around the name extraction catches every
  \<open>Exception\<close>, sets the name to \<open>"lol"\<close> and logs twice; a \<open>None\<close> name then raises
  \<open>ValueError\<close>. The result is paired with the session state after the call.
\<close>

definition generate_python_code ::
  "env \<Rightarrow> message list \<Rightarrow> session \<Rightarrow> (exn + PythonFunction) \<times> session" where
  "generate_python_code ev instructions_input w =
     (let w1 = w\<lparr>calls := Suc (calls w)\<rparr>
      in case complete ev (calls w) instructions_input ''gpt-4'' of
           Inl e \<Rightarrow> (Inl e, w1)
         | Inr response_content \<Rightarrow>
             (let python_script =
                    extract_substring response_content ''```python'' ''```'';
                  (r, w2) =
                    (case extract_single_function_name (parse ev) python_script of
                       Inr function_name \<Rightarrow> (Inr function_name, w1)
                     | Inl e \<Rightarrow>
                         if is_Exception e
                         then (Inr (Some ''lol''),
                               log_error (''Python script: '' @ python_script)
                                 (log_error
                                    (''Error extracting function name: '' @ str_of_exn e)
                                    w1))
                         else (Inl e, w1))
              in case r of
                   Inl e \<Rightarrow> (Inl e, w2)
                 | Inr None \<Rightarrow> (Inl (ValueError not_exactly_one), w2)
                 | Inr (Some function_name) \<Rightarrow>
                     (Inr \<lparr>name = function_name, content = python_script\<rparr>,
                      log_info (''Generated Python function: '' @ function_name) w2)))"

definition generate_python_function ::
  "env \<Rightarrow> string \<Rightarrow> session \<Rightarrow> (exn + PythonFunction) \<times> session" where
  "generate_python_function ev function_goal w =
     (let prompt = ''Write a Python function to '' @ function_goal @
            ''. The code must be typed. The answer must only be the python code and nothing else.'';
          instructions_input =
            [(''system'', ''You are a python programmer.''), (''user'', prompt)]
      in generate_python_code ev instructions_input w)"

definition generate_python_test ::
  "env \<Rightarrow> PythonFileScript \<Rightarrow> PythonFunction \<Rightarrow> string \<Rightarrow> session
     \<Rightarrow> (exn + PythonFunction) \<times> session" where
  "generate_python_test ev self function_to_test script_package_name w =
     (let prompt = ''Write a Python test for the function above. The code must be typed and shall use pytest parametric tests. The function must be called test_'' @
            name function_to_test @
            '' The answer must only be the python code and nothing else.'';
          instructions_input =
            [(''system'', ''You are a python programmer.''),
             (''user'',
              ''The module can be imported with ```python'' @ [CHR 0x0A] @ ''from '' @
              script_package_name @ '' import '' @ module_name self @ [CHR 0x0A] @
              ''```'' @ [CHR 0x0A] @ ''Code to test:'' @ [CHR 0x0A] @ ''```python'' @
              [CHR 0x0A] @ content function_to_test @ [CHR 0x0A] @ ''```''),
             (''user'', prompt)]
      in generate_python_code ev instructions_input w)"

text \<open>
  \<open>PythonFileScript.add_function\<close>: the script after the call is part of the result, also
  when the call raises.
\<close>

definition script_add_function ::
  "env \<Rightarrow> PythonFileScript \<Rightarrow> string \<Rightarrow> string \<Rightarrow> session
     \<Rightarrow> (exn + unit) \<times> PythonFileScript \<times> session" where
  "script_add_function ev self function_goal script_package_name w =
     (case generate_python_function ev function_goal w of
        (Inl e, w1) \<Rightarrow> (Inl e, self, w1)
      | (Inr python_function, w1) \<Rightarrow>
          (case generate_python_test ev self python_function script_package_name w1 of
             (Inl e, w2) \<Rightarrow> (Inl e, self, w2)
           | (Inr python_test, w2) \<Rightarrow>
               (Inr (),
                self\<lparr>functions := functions self @
                   [\<lparr>suite_function = python_function, suite_test = python_test\<rparr>]\<rparr>,
                w2)))"

subsection \<open>Concrete collaborators\<close>

text \<open>
  A provider that always answers with the same text, and one whose first answer is a
  function and whose later calls fail; both with the example parser. \<open>session0\<close> is
  the state before any call.
\<close>

definition env_fixed :: "string \<Rightarrow> env" where
  "env_fixed response =
     \<lparr>complete = (\<lambda>n messages model. Inr response), parse = parse_examples\<rparr>"

definition env_then_fail :: env where
  "env_then_fail =
     \<lparr>complete = (\<lambda>n messages model.
          if n = 0 then Inr src_def_foo else Inl (ProviderError ''rate limit'')),
      parse = parse_examples\<rparr>"

definition session0 :: session where
  "session0 = \<lparr>calls = 0, log_records = []\<rparr>"

section \<open>Workspace files (main.py)\<close>

subsection \<open>The file system\<close>

text \<open>
  The file system is a tree: a file holds its text, a directory its entries in listing
  order. A place in the tree is the list of the entry names that lead to it from the
  root. Links and mount points are outside the model.
\<close>

type_synonym path = "string list"

datatype node = File string | Dir "(string \<times> node) list"

fun lookup :: "node \<Rightarrow> path \<Rightarrow> node option" where
  "lookup n [] = Some n"
| "lookup (File c) (x # xs) = None"
| "lookup (Dir es) (x # xs) =
     (case map_of es x of None \<Rightarrow> None | Some n \<Rightarrow> lookup n xs)"

text \<open>Rewrites the entries of the directory at a path; does nothing if there is none.\<close>

fun modify_dir ::
  "path \<Rightarrow> ((string \<times> node) list \<Rightarrow> (string \<times> node) list) \<Rightarrow> node \<Rightarrow> node" where
  "modify_dir [] f (Dir es) = Dir (f es)"
| "modify_dir [] f (File c) = File c"
| "modify_dir (x # xs) f (File c) = File c"
| "modify_dir (x # xs) f (Dir es) =
     (case map_of es x of
        None \<Rightarrow> Dir es
      | Some n \<Rightarrow> Dir (AList.update x (modify_dir xs f n) es))"

definition put :: "path \<Rightarrow> node \<Rightarrow> node \<Rightarrow> node" where
  "put p v fs = modify_dir (butlast p) (AList.update (last p) v) fs"

definition remove :: "path \<Rightarrow> node \<Rightarrow> node" where
  "remove p fs = modify_dir (butlast p) (AList.delete (last p)) fs"

text \<open>
  The system calls on a place of the tree. \<open>mkdir\<close>: the place must be new and its
  parent a directory.
\<close>

definition mkdir :: "path \<Rightarrow> node \<Rightarrow> exn + node" where
  "mkdir p fs =
     (case lookup fs p of
        Some n \<Rightarrow> Inl FileExistsError
      | None \<Rightarrow>
          (case lookup fs (butlast p) of
             Some (Dir es) \<Rightarrow> Inr (put p (Dir []) fs)
           | Some (File c) \<Rightarrow> Inl NotADirectoryError
           | None \<Rightarrow> Inl FileNotFoundError))"

definition isdir :: "node \<Rightarrow> path \<Rightarrow> bool" where
  "isdir fs p = (case lookup fs p of Some (Dir es) \<Rightarrow> True | _ \<Rightarrow> False)"

definition listdir :: "path \<Rightarrow> node \<Rightarrow> exn + string list" where
  "listdir p fs =
     (case lookup fs p of
        Some (Dir es) \<Rightarrow> Inr (map fst es)
      | Some (File c) \<Rightarrow> Inl NotADirectoryError
      | None \<Rightarrow> Inl FileNotFoundError)"

text \<open>
  \<open>os.rename\<close> on one file system: the source must exist and must not be moved below
  itself; the parent of the destination must be a directory; an existing destination
  is replaced only by a node of its kind, a directory only if it is empty.
\<close>

definition rename :: "path \<Rightarrow> path \<Rightarrow> node \<Rightarrow> exn + node" where
  "rename src dst fs =
     (case lookup fs src of
        None \<Rightarrow> Inl FileNotFoundError
      | Some n \<Rightarrow>
          if src = [] \<or> dst = [] then Inl OSError
          else if src = dst then Inr fs
          else if prefix src dst then Inl OSError
          else (case lookup fs (butlast dst) of
                  Some (Dir ps) \<Rightarrow>
                    (case (lookup fs dst, n) of
                       (None, _) \<Rightarrow> Inr (put dst n (remove src fs))
                     | (Some (File c), File c') \<Rightarrow> Inr (put dst n (remove src fs))
                     | (Some (File c), Dir es) \<Rightarrow> Inl NotADirectoryError
                     | (Some (Dir ds), File c') \<Rightarrow> Inl IsADirectoryError
                     | (Some (Dir ds), Dir es) \<Rightarrow>
                         if ds = [] then Inr (put dst n (remove src fs)) else Inl OSError)
                | Some (File c) \<Rightarrow> Inl NotADirectoryError
                | None \<Rightarrow> Inl FileNotFoundError))"

text \<open>\<open>open(path, "w")\<close> creates or truncates the file; \<open>file.write\<close> appends to it.\<close>

definition open_w :: "path \<Rightarrow> node \<Rightarrow> exn + node" where
  "open_w p fs =
     (if p = [] then Inl IsADirectoryError
      else case lookup fs (butlast p) of
             Some (Dir es) \<Rightarrow>
               (case lookup fs p of
                  Some (Dir ds) \<Rightarrow> Inl IsADirectoryError
                | _ \<Rightarrow> Inr (put p (File []) fs))
           | Some (File c) \<Rightarrow> Inl NotADirectoryError
           | None \<Rightarrow> Inl FileNotFoundError)"

definition file_write :: "path \<Rightarrow> string \<Rightarrow> node \<Rightarrow> node" where
  "file_write p data fs =
     (case lookup fs p of
        Some (File c) \<Rightarrow> put p (File (c @ data)) fs
      | _ \<Rightarrow> fs)"

subsection \<open>Path strings\<close>

text \<open>
  A path string is kept as the list of the pieces between its separators, read from
  the root of the tree: \<open>split_sep\<close> is \<open>str.split("/")\<close>, so an empty piece stands
  for a doubled, leading or trailing separator. \<open>os_path_join\<close> is \<open>os.path.join\<close>: an
  absolute second argument replaces the first, and no separator is added after an
  empty first argument or one that ends with a separator.
\<close>

fun split_sep :: "string \<Rightarrow> string list" where
  "split_sep [] = [[]]"
| "split_sep (c # cs) =
     (if c = CHR ''/'' then [] # split_sep cs
      else (case split_sep cs of [] \<Rightarrow> [[c]] | x # xs \<Rightarrow> (c # x) # xs))"

definition os_path_join :: "path \<Rightarrow> string \<Rightarrow> path" where
  "os_path_join a b =
     (if b \<noteq> [] \<and> hd b = CHR ''/'' then split_sep b
      else if a = [] \<or> last a = [] then butlast a @ split_sep b
      else a @ split_sep b)"

definition strip_slashes :: "path \<Rightarrow> path" where
  "strip_slashes r = rev (dropWhile (\<lambda>c. c = []) (rev r))"

text \<open>
  \<open>os.path.split\<close>: the piece after the last separator, and what is before it without
  its trailing separators.
\<close>

definition os_path_split :: "path \<Rightarrow> path \<times> string" where
  "os_path_split r = (if r = [] then ([], []) else (strip_slashes (butlast r), last r))"

text \<open>
  Path resolution by the system. \<open>walk_dirs\<close> follows pieces that must all name
  directories, from the directory \<open>cur\<close>: an empty piece and \<open>.\<close> stay, \<open>..\<close> goes to
  the parent, a name goes to that entry. \<open>resolve\<close> gives the place a path string
  names: its last piece may name a file or nothing yet.
\<close>

fun walk_dirs :: "node \<Rightarrow> path \<Rightarrow> string list \<Rightarrow> exn + path" where
  "walk_dirs fs cur [] = Inr cur"
| "walk_dirs fs cur (c # cs) =
     (if c = [] \<or> c = ''.'' then walk_dirs fs cur cs
      else if c = ''..'' then walk_dirs fs (butlast cur) cs
      else (case lookup fs (cur @ [c]) of
              Some (Dir es) \<Rightarrow> walk_dirs fs (cur @ [c]) cs
            | Some (File t) \<Rightarrow> Inl NotADirectoryError
            | None \<Rightarrow> Inl FileNotFoundError))"

definition resolve :: "node \<Rightarrow> path \<Rightarrow> exn + path" where
  "resolve fs r =
     (let r' = strip_slashes r
      in if r' = [] then Inr []
         else if last r' = ''.'' \<or> last r' = ''..'' then walk_dirs fs [] r'
         else (case walk_dirs fs [] (butlast r') of
                 Inl e \<Rightarrow> Inl e
               | Inr parent \<Rightarrow> Inr (parent @ [last r'])))"

definition trailing_slash :: "path \<Rightarrow> bool" where
  "trailing_slash r \<longleftrightarrow> r \<noteq> [] \<and> last r = []"

definition final_dot :: "path \<Rightarrow> bool" where
  "final_dot r \<longleftrightarrow>
     strip_slashes r \<noteq> [] \<and>
     (last (strip_slashes r) = ''.'' \<or> last (strip_slashes r) = ''..'')"

text \<open>The calls of \<open>os\<close> and \<open>os.path\<close> on path strings: resolve, then act on the tree.\<close>

definition os_path_exists :: "node \<Rightarrow> path \<Rightarrow> bool" where
  "os_path_exists fs r =
     (case resolve fs r of
        Inl e \<Rightarrow> False
      | Inr p \<Rightarrow>
          (case lookup fs p of
             None \<Rightarrow> False
           | Some (Dir es) \<Rightarrow> True
           | Some (File c) \<Rightarrow> \<not> trailing_slash r))"

definition os_path_isdir :: "node \<Rightarrow> path \<Rightarrow> bool" where
  "os_path_isdir fs r = (case resolve fs r of Inl e \<Rightarrow> False | Inr p \<Rightarrow> isdir fs p)"

definition os_mkdir :: "path \<Rightarrow> node \<Rightarrow> exn + node" where
  "os_mkdir r fs = (case resolve fs r of Inl e \<Rightarrow> Inl e | Inr p \<Rightarrow> mkdir p fs)"

definition os_listdir :: "path \<Rightarrow> node \<Rightarrow> exn + string list" where
  "os_listdir r fs = (case resolve fs r of Inl e \<Rightarrow> Inl e | Inr p \<Rightarrow> listdir p fs)"

definition os_rename :: "path \<Rightarrow> path \<Rightarrow> node \<Rightarrow> exn + node" where
  "os_rename src dst fs =
     (if final_dot src \<or> final_dot dst then Inl OSError
      else (case resolve fs src of
              Inl e \<Rightarrow> Inl e
            | Inr s \<Rightarrow>
                (case resolve fs dst of
                   Inl e \<Rightarrow> Inl e
                 | Inr d \<Rightarrow> rename s d fs)))"

text \<open>\<open>open(name, "w")\<close> on a path string; the result holds the place of the open file.\<close>

definition os_open_w :: "path \<Rightarrow> node \<Rightarrow> exn + path \<times> node" where
  "os_open_w r fs =
     (if trailing_slash r then Inl IsADirectoryError
      else (case resolve fs r of
              Inl e \<Rightarrow> Inl e
            | Inr p \<Rightarrow>
                (case open_w p fs of
                   Inl e \<Rightarrow> Inl e
                 | Inr fs1 \<Rightarrow> Inr (p, fs1))))"

text \<open>
  \<open>os.makedirs(name, exist_ok)\<close>, as the library has it: the name is split (twice when
  it ends with a separator); a missing head is created first, a \<open>FileExistsError\<close>
  from that step being ignored, and nothing more is done when the tail is \<open>.\<close>; then
  comes \<open>mkdir\<close>, whose failure is accepted only with \<open>exist_ok\<close> on a directory.
\<close>

definition makedirs_split :: "path \<Rightarrow> path \<times> string" where
  "makedirs_split dirname =
     (if snd (os_path_split dirname) = [] then os_path_split (fst (os_path_split dirname))
      else os_path_split dirname)"

function os_makedirs :: "path \<Rightarrow> bool \<Rightarrow> node \<Rightarrow> exn + node" where
  "os_makedirs dirname exist_ok fs =
     (case (if fst (makedirs_split dirname) \<noteq> [] \<and> snd (makedirs_split dirname) \<noteq> [] \<and>
               \<not> os_path_exists fs (fst (makedirs_split dirname))
            then (case os_makedirs (fst (makedirs_split dirname)) exist_ok fs of
                    Inl e \<Rightarrow>
                      if e = FileExistsError
                      then Inr (snd (makedirs_split dirname) = ''.'', fs)
                      else Inl e
                  | Inr fs0 \<Rightarrow> Inr (snd (makedirs_split dirname) = ''.'', fs0))
            else Inr (False, fs)) of
        Inl e \<Rightarrow> Inl e
      | Inr (finished, fs1) \<Rightarrow>
          if finished then Inr fs1
          else (case os_mkdir dirname fs1 of
                  Inr fs2 \<Rightarrow> Inr fs2
                | Inl e \<Rightarrow> if exist_ok \<and> os_path_isdir fs1 dirname then Inr fs1 else Inl e))"
  by pat_completeness auto
termination
proof (relation "measure (\<lambda>(dirname, exist_ok, fs). length dirname)")
  show "wf (measure (\<lambda>(dirname, exist_ok, fs). length dirname))" by simp
next
  fix dirname :: path and exist_ok :: bool and fs :: node
  assume a: "fst (makedirs_split dirname) \<noteq> [] \<and> snd (makedirs_split dirname) \<noteq> [] \<and>
      \<not> os_path_exists fs (fst (makedirs_split dirname))"
  have strip: "length (strip_slashes r) \<le> length r" for r
    unfolding strip_slashes_def using length_dropWhile_le[of "\<lambda>c. c = []" "rev r"] by simp
  have sp: "length (fst (os_path_split r)) \<le> length r - 1" for r
    using strip[of "butlast r"] by (simp add: os_path_split_def)
  have "dirname \<noteq> []" using a by (auto simp: makedirs_split_def os_path_split_def)
  moreover have "length (fst (makedirs_split dirname)) \<le> length dirname - 1"
    using sp[of dirname] sp[of "fst (os_path_split dirname)"]
    by (auto simp: makedirs_split_def)
  ultimately show "((fst (makedirs_split dirname), exist_ok, fs), (dirname, exist_ok, fs))
      \<in> measure (\<lambda>(dirname, exist_ok, fs). length dirname)"
    by (cases dirname) auto
qed

declare os_makedirs.simps [simp del]

subsection \<open>PythonFileScript.write_to_file\<close>

text \<open>
  The two files of a script, for a package name and a module name that are single
  entry names below the workspace.
\<close>

definition script_filepath :: "path \<Rightarrow> string \<Rightarrow> string \<Rightarrow> path" where
  "script_filepath workspace package_name module = workspace @ [package_name, module @ ''.py'']"

definition test_filepath :: "path \<Rightarrow> string \<Rightarrow> path" where
  "test_filepath workspace module = workspace @ [''tests'', ''test_'' @ module @ ''.py'']"

definition write_to_file :: "PythonFileScript \<Rightarrow> path \<Rightarrow> string \<Rightarrow> node \<Rightarrow> exn + node" where
  "write_to_file self workspace package_name fs =
     (case open_w (script_filepath workspace package_name (module_name self)) fs of
        Inl e \<Rightarrow> Inl e
      | Inr fs1 \<Rightarrow>
          (let fs2 = fold (\<lambda>function_set.
                        file_write (script_filepath workspace package_name (module_name self))
                          (content (suite_function function_set)))
                      (functions self) fs1
           in case open_w (test_filepath workspace (module_name self)) fs2 of
                Inl e \<Rightarrow> Inl e
              | Inr fs3 \<Rightarrow>
                  Inr (fold (\<lambda>function_set.
                         file_write (test_filepath workspace (module_name self))
                           (content (suite_test function_set)))
                       (functions self) fs3)))"

subsection \<open>PythonPackage\<close>

record PythonPackage =
  workspace_directory :: path
  backup_directory :: path
  package_name :: string
  scripts :: "PythonFileScript list"

text \<open>
  The directories are path strings, given piece by piece from the root of the tree;
  \<open>package_name\<close> is the string the constructor receives.
\<close>

definition package_directory :: "PythonPackage \<Rightarrow> path" where
  "package_directory self = os_path_join (workspace_directory self) (package_name self)"

definition test_directory :: "PythonPackage \<Rightarrow> path" where
  "test_directory self = os_path_join (workspace_directory self) ''tests''"

text \<open>The loop of \<open>init_workspace\<close> that moves the listed entries to the backup folder.\<close>

fun move_entries :: "path \<Rightarrow> path \<Rightarrow> string list \<Rightarrow> node \<Rightarrow> exn + node" where
  "move_entries workspace backup_subdirectory [] fs = Inr fs"
| "move_entries workspace backup_subdirectory (filename # rest) fs =
     (case os_rename (os_path_join workspace filename)
             (os_path_join backup_subdirectory filename) fs of
        Inl e \<Rightarrow> Inl e
      | Inr fs1 \<Rightarrow> move_entries workspace backup_subdirectory rest fs1)"

text \<open>
  The block that \<open>init_workspace\<close> runs for the package directory and again for the
  test directory: create the directory, then write an empty \<open>__init__.py\<close> in it.
\<close>

definition init_marker :: "path \<Rightarrow> node \<Rightarrow> exn + node" where
  "init_marker directory fs =
     (case os_makedirs directory True fs of
        Inl e \<Rightarrow> Inl e
      | Inr fs1 \<Rightarrow>
          (case os_open_w (os_path_join directory ''__init__.py'') fs1 of
             Inl e \<Rightarrow> Inl e
           | Inr (f, fs2) \<Rightarrow> Inr (file_write f [] fs2)))"

text \<open>
  \<open>init_workspace\<close>; \<open>now\<close> is what \<open>time.strftime("%Y%m%d-%H%M%S")\<close> returns at the
  call.
\<close>

definition init_workspace :: "PythonPackage \<Rightarrow> string \<Rightarrow> node \<Rightarrow> exn + node" where
  "init_workspace self now fs =
     (case os_makedirs (workspace_directory self) True fs of
        Inl e \<Rightarrow> Inl e
      | Inr fs1 \<Rightarrow>
          (case os_listdir (workspace_directory self) fs1 of
             Inl e \<Rightarrow> Inl e
           | Inr entries \<Rightarrow>
               (case (if entries \<noteq> []
                      then (let backup_subdirectory =
                                  os_path_join (backup_directory self) now
                            in case os_makedirs backup_subdirectory False fs1 of
                                 Inl e \<Rightarrow> Inl e
                               | Inr fs2 \<Rightarrow>
                                   (case os_listdir (workspace_directory self) fs2 of
                                      Inl e \<Rightarrow> Inl e
                                    | Inr filenames \<Rightarrow>
                                        move_entries (workspace_directory self)
                                          backup_subdirectory filenames fs2))
                      else Inr fs1) of
                  Inl e \<Rightarrow> Inl e
                | Inr fs3 \<Rightarrow>
                    (case init_marker (package_directory self) fs3 of
                       Inl e \<Rightarrow> Inl e
                     | Inr fs4 \<Rightarrow> init_marker (test_directory self) fs4))))"

text \<open>
  \<open>write_files\<close>; as in \<open>write_to_file\<close> above, the package name and the module name
  are taken as single entry names below the workspace.
\<close>

fun write_files_loop :: "PythonFileScript list \<Rightarrow> path \<Rightarrow> string \<Rightarrow> node \<Rightarrow> exn + node" where
  "write_files_loop [] workspace pkg fs = Inr fs"
| "write_files_loop (script # rest) workspace pkg fs =
     (case write_to_file script workspace pkg fs of
        Inl e \<Rightarrow> Inl e
      | Inr fs1 \<Rightarrow> write_files_loop rest workspace pkg fs1)"

definition write_files :: "PythonPackage \<Rightarrow> node \<Rightarrow> exn + node" where
  "write_files self fs =
     write_files_loop (scripts self) (workspace_directory self) (package_name self) fs"

text \<open>\<open>PythonPackage.add_function\<close>: a new script named \<open>main\<close> for every call.\<close>

definition package_add_function ::
  "env \<Rightarrow> PythonPackage \<Rightarrow> string \<Rightarrow> session \<Rightarrow> (exn + unit) \<times> PythonPackage \<times> session" where
  "package_add_function ev self function_goal w =
     (let my_script = \<lparr>functions = [], module_name = ''main''\<rparr>
      in case script_add_function ev my_script function_goal (package_name self) w of
           (Inl e, my_script1, w1) \<Rightarrow> (Inl e, self, w1)
         | (Inr u, my_script1, w1) \<Rightarrow>
             (Inr (), self\<lparr>scripts := scripts self @ [my_script1]\<rparr>, w1))"

subsection \<open>Conditions on the file system, and a concrete one\<close>

text \<open>
  A plain name is one entry name: not empty, not \<open>.\<close> or \<open>..\<close>, without a separator.
  Names returned by \<open>os.listdir\<close> and by \<open>time.strftime\<close> with the format above are
  plain.
\<close>

definition plain_name :: "string \<Rightarrow> bool" where
  "plain_name n \<longleftrightarrow> n \<noteq> [] \<and> n \<noteq> ''.'' \<and> n \<noteq> ''..'' \<and> CHR ''/'' \<notin> set n"

definition plain_path :: "path \<Rightarrow> bool" where
  "plain_path p \<longleftrightarrow> (\<forall>c \<in> set p. plain_name c)"

text \<open>No existing ancestor of the path (nor the path itself) is a regular file.\<close>

definition creatable :: "node \<Rightarrow> path \<Rightarrow> bool" where
  "creatable fs p \<longleftrightarrow>
     (\<forall>q \<in> set (prefixes p). case lookup fs q of Some (File c) \<Rightarrow> False | _ \<Rightarrow> True)"

definition not_a_directory :: "node \<Rightarrow> path \<Rightarrow> bool" where
  "not_a_directory fs p = (case lookup fs p of Some (Dir es) \<Rightarrow> False | _ \<Rightarrow> True)"

text \<open>
  A working directory that holds a workspace left by an earlier run, and the package
  object of the entry point with its default arguments.
\<close>

definition marker_dir :: node where
  "marker_dir = Dir [(''__init__.py'', File [])]"

definition old_workspace :: "(string \<times> node) list" where
  "old_workspace =
     [(''testpackage'', Dir [(''__init__.py'', File []), (''main.py'', File ''def f(): pass'')]),
      (''tests'', Dir [(''__init__.py'', File []), (''test_main.py'', File ''def test_f(): pass'')]),
      (''notes.txt'', File ''keep'')]"

definition fs_example :: node where
  "fs_example = Dir [(''workspace'', Dir old_workspace), (''README'', File ''hello'')]"

definition package_example :: PythonPackage where
  "package_example =
     \<lparr>workspace_directory = [''workspace''], backup_directory = [''backup''],
      package_name = ''testpackage'', scripts = []\<rparr>"

text \<open>The same package object with the empty string as package name.\<close>

definition package_empty_name :: PythonPackage where
  "package_empty_name = package_example\<lparr>package_name := []\<rparr>"

text \<open>Two scripts of one suite each, as two calls of \<open>add_function\<close> leave them.\<close>

definition suite_example :: "string \<Rightarrow> PythonFunctionSuite" where
  "suite_example f =
     \<lparr>suite_function = \<lparr>name = f, content = ''def '' @ f @ ''(): pass''\<rparr>,
      suite_test = \<lparr>name = ''test_'' @ f, content = ''def test_'' @ f @ ''(): pass''\<rparr>\<rparr>"


definition package_two_scripts :: PythonPackage where
  "package_two_scripts =
     package_example\<lparr>scripts :=
       [\<lparr>functions = [suite_example ''f''], module_name = ''main''\<rparr>,
        \<lparr>functions = [suite_example ''g''], module_name = ''main''\<rparr>]\<rparr>"

section \<open>Properties of the text extraction utilities\<close>

subsection \<open>The scan finds the first occurrence\<close>

lemma find_aux_absent:
  "(\<forall>j \<le> length s. \<not> prefix sub (drop j s)) \<Longrightarrow> find_aux sub s i = - 1"
proof (induction s arbitrary: i)
  case Nil
  then show ?case by auto
next
  case (Cons c cs)
  have "\<not> prefix sub (c # cs)" using Cons.prems[rule_format, of 0] by simp
  moreover have "\<forall>j \<le> length cs. \<not> prefix sub (drop j cs)"
    using Cons.prems by (metis Suc_le_mono drop_Suc_Cons length_Cons)
  ultimately show ?case using Cons.IH by simp
qed

lemma find_aux_first:
  "j \<le> length s \<Longrightarrow> prefix sub (drop j s) \<Longrightarrow> (\<forall>j' < j. \<not> prefix sub (drop j' s))
     \<Longrightarrow> find_aux sub s i = int (i + j)"
proof (induction s arbitrary: i j)
  case Nil
  then show ?case by auto
next
  case (Cons c cs)
  show ?case
  proof (cases j)
    case 0
    then show ?thesis using Cons.prems by simp
  next
    case (Suc j0)
    have n0: "\<not> prefix sub (c # cs)" using Cons.prems(3)[rule_format, of 0] Suc by simp
    have "\<forall>j' < j0. \<not> prefix sub (drop j' cs)"
      using Cons.prems(3) Suc by (metis Suc_less_eq drop_Suc_Cons)
    then have "find_aux sub cs (Suc i) = int (Suc i + j0)"
      using Cons.IH[of j0 "Suc i"] Cons.prems Suc by simp
    then show ?thesis using n0 Suc by simp
  qed
qed

lemma absent_from_iff:
  "absent_from s sub k \<longleftrightarrow> (\<forall>j. k \<le> j \<and> j \<le> length s \<longrightarrow> \<not> occurs_at s sub j)"
  unfolding absent_from_def set_upt by (auto simp: less_Suc_eq_le)

lemma find_str_absent:
  assumes "absent_from s sub k"
  shows "find_str s sub (int k) = - 1"
proof (cases "k \<le> length s")
  case False
  then show ?thesis by (simp add: find_str_def)
next
  case True
  have "\<forall>j \<le> length (drop k s). \<not> prefix sub (drop j (drop k s))"
  proof (intro allI impI)
    fix j assume "j \<le> length (drop k s)"
    then have "k \<le> j + k" "j + k < Suc (length s)" using True by auto
    then have "\<not> occurs_at s sub (j + k)" using assms by (simp add: absent_from_iff)
    then show "\<not> prefix sub (drop j (drop k s))"
      using \<open>j + k < Suc (length s)\<close> by (simp add: occurs_at_def)
  qed
  then have "find_aux sub (drop k s) k = - 1" by (rule find_aux_absent)
  then show ?thesis using True by (simp add: find_str_def)
qed

lemma find_str_first:
  assumes "first_occurrence_from s sub k i"
  shows "find_str s sub (int k) = int i"
proof -
  from assms have ki: "k \<le> i" and il: "i \<le> length s" and p: "prefix sub (drop i s)"
    and nb: "\<forall>j. k \<le> j \<and> j < i \<longrightarrow> \<not> occurs_at s sub j"
    by (auto simp: first_occurrence_from_def occurs_at_def)
  have 1: "i - k \<le> length (drop k s)" using ki il by simp
  have 2: "prefix sub (drop (i - k) (drop k s))" using p ki by simp
  have 3: "\<forall>j' < i - k. \<not> prefix sub (drop j' (drop k s))"
  proof (intro allI impI)
    fix j' assume "j' < i - k"
    then have "k \<le> j' + k" "j' + k < i" by auto
    then have "\<not> occurs_at s sub (j' + k)" using nb by blast
    then show "\<not> prefix sub (drop j' (drop k s))"
      using \<open>j' + k < i\<close> il by (simp add: occurs_at_def)
  qed
  have "find_aux sub (drop k s) k = int (k + (i - k))"
    using find_aux_first[OF 1 2 3] .
  then show ?thesis using ki il by (simp add: find_str_def)
qed

lemma find_str_absent_any:
  assumes "absent_from s sub 0"
  shows "find_str s sub st = - 1"
proof -
  define k where "k = (if st < 0 then nat (max (int (length s) + st) 0) else nat st)"
  have "absent_from s sub k" using assms by (simp add: absent_from_iff)
  then have "find_str s sub (int k) = - 1" by (rule find_str_absent)
  moreover have "find_str s sub st = find_str s sub (int k)"
    by (auto simp: find_str_def k_def Let_def max_def)
  ultimately show ?thesis by simp
qed

subsection \<open>extract_substring\<close>

lemma extract_found:
  assumes a: "first_occurrence_from s sm 0 i"
    and b: "first_occurrence_from s em (i + length sm) j"
  shows "extract_substring s sm em = take (j - (i + length sm)) (drop (i + length sm) s)"
proof -
  have f1: "find_str s sm 0 = int i" using find_str_first[OF a] by simp
  have f2: "find_str s em (int i + int (length sm)) = int j"
    using find_str_first[OF b] by simp
  have "j \<le> length s" "i + length sm \<le> j"
    using b by (auto simp: first_occurrence_from_def occurs_at_def)
  moreover have "nat (int i + int (length sm)) = i + length sm" by simp
  ultimately show ?thesis
    by (simp add: extract_substring_def f1 f2 slice_def slice_index_def Let_def)
qed

lemma extract_between:
  assumes a: "first_occurrence_from s sm 0 i"
    and b: "first_occurrence_from s em (i + length sm) j"
  shows "s = take i s @ sm @ extract_substring s sm em @ em @ drop (j + length em) s"
proof -
  have oi: "occurs_at s sm i" and oj: "occurs_at s em j" and le: "i + length sm \<le> j"
    using a b by (auto simp: first_occurrence_from_def)
  have sm: "take (length sm) (drop i s) = sm"
    using oi by (auto simp: occurs_at_def prefix_def)
  have em: "take (length em) (drop j s) = em"
    using oj by (auto simp: occurs_at_def prefix_def)
  have "s = take i s @ drop i s" by simp
  also have "drop i s = sm @ drop (i + length sm) s"
    using sm by (metis append_take_drop_id drop_drop add.commute)
  also have "drop (i + length sm) s =
      take (j - (i + length sm)) (drop (i + length sm) s) @ drop j s"
    using le by (metis append_take_drop_id drop_drop le_add_diff_inverse2)
  also have "drop j s = em @ drop (j + length em) s"
    using em by (metis append_take_drop_id drop_drop add.commute)
  finally show ?thesis using extract_found[OF a b] by simp
qed

lemma extract_no_start:
  assumes "absent_from s sm 0"
  shows "extract_substring s sm em = s"
proof -
  have "find_str s sm 0 = - 1" using find_str_absent_any[OF assms] .
  then show ?thesis by (simp add: extract_substring_def Let_def)
qed

lemma extract_no_end:
  assumes "absent_from s em 0"
  shows "extract_substring s sm em = s"
  using find_str_absent_any[OF assms] by (simp add: extract_substring_def Let_def)

lemma extract_end_before:
  assumes a: "first_occurrence_from s sm 0 i" and b: "absent_from s em (i + length sm)"
  shows "extract_substring s sm em = s"
proof -
  have f1: "find_str s sm 0 = int i" using find_str_first[OF a] by simp
  have "find_str s em (int i + int (length sm)) = - 1"
    using find_str_absent[OF b] by simp
  then show ?thesis by (simp add: extract_substring_def f1)
qed

lemmas str_defs = extract_substring_def find_str_def slice_def slice_index_def

lemma extract_fenced_example:
  "extract_substring (''```python'' @ [CHR 0x0A] @ ''x=1'' @ [CHR 0x0A] @ ''```'')
       ''```python'' ''```'' = [CHR 0x0A] @ ''x=1'' @ [CHR 0x0A]"
  by (simp add: str_defs)

text \<open>
  Claim C5. Let \<open>i\<close> be the first occurrence of the start marker in \<open>s\<close>. If the end
  marker occurs at or after the end of that occurrence, first at \<open>j\<close>, then
  \<open>extract_substring\<close> returns the text strictly between the two, that is, \<open>s\<close> is the
  text before \<open>i\<close>, the start marker, the result, the end marker and the rest. It
  returns \<open>s\<close> unchanged when the start marker is absent, when the end marker is
  absent, and when the end marker does not occur after the start marker (it occurs
  only before it). The fenced example of the specification yields the line between
  the fences with both newlines.
\<close>

theorem extract_substring_spec:
  "(first_occurrence_from s start_marker 0 i \<and>
    first_occurrence_from s end_marker (i + length start_marker) j \<longrightarrow>
      extract_substring s start_marker end_marker =
        take (j - (i + length start_marker)) (drop (i + length start_marker) s) \<and>
      s = take i s @ start_marker @ extract_substring s start_marker end_marker @
            end_marker @ drop (j + length end_marker) s)
   \<and> (absent_from s start_marker 0 \<longrightarrow> extract_substring s start_marker end_marker = s)
   \<and> (absent_from s end_marker 0 \<longrightarrow> extract_substring s start_marker end_marker = s)
   \<and> (first_occurrence_from s start_marker 0 i \<and>
      absent_from s end_marker (i + length start_marker) \<longrightarrow>
        extract_substring s start_marker end_marker = s)
   \<and> extract_substring (''```python'' @ [CHR 0x0A] @ ''x=1'' @ [CHR 0x0A] @ ''```'')
        ''```python'' ''```'' = [CHR 0x0A] @ ''x=1'' @ [CHR 0x0A]"
  using extract_found extract_between extract_no_start extract_no_end extract_end_before
    extract_fenced_example
  by blast

theorem extract_substring_spec_witness:
  "first_occurrence_from ''a[b]c'' ''['' 0 1 \<and> first_occurrence_from ''a[b]c'' '']'' 2 3
     \<and> extract_substring ''a[b]c'' ''['' '']'' = ''b''
   \<and> absent_from ''abc'' ''['' 0 \<and> extract_substring ''abc'' ''['' '']'' = ''abc''
   \<and> absent_from ''a[b'' '']'' 0 \<and> extract_substring ''a[b'' ''['' '']'' = ''a[b''
   \<and> first_occurrence_from '']a[b'' ''['' 0 2 \<and> absent_from '']a[b'' '']'' 3
     \<and> extract_substring '']a[b'' ''['' '']'' = '']a[b''"
proof -
  have h1: "first_occurrence_from ''a[b]c'' ''['' 0 1"
    and h2: "first_occurrence_from ''a[b]c'' '']'' (1 + length ''['') 3"
    and h3: "absent_from ''abc'' ''['' 0"
    and h4: "absent_from ''a[b'' '']'' 0"
    and h5: "first_occurrence_from '']a[b'' ''['' 0 2"
    and h6: "absent_from '']a[b'' '']'' (2 + length ''['')"
    by code_simp+
  have "extract_substring ''a[b]c'' ''['' '']'' =
        take (3 - (1 + length ''['')) (drop (1 + length ''['') ''a[b]c'')"
    using extract_substring_spec[of "''a[b]c''" "''[''" 1 "'']''" 3] h1 h2 by blast
  then have r1: "extract_substring ''a[b]c'' ''['' '']'' = ''b''" by simp
  have r2: "extract_substring ''abc'' ''['' '']'' = ''abc''"
    using extract_substring_spec[of "''abc''" "''[''" 0 "'']''" 0] h3 by blast
  have r3: "extract_substring ''a[b'' ''['' '']'' = ''a[b''"
    using extract_substring_spec[of "''a[b''" "''[''" 0 "'']''" 0] h4 by blast
  have r4: "extract_substring '']a[b'' ''['' '']'' = '']a[b''"
    using extract_substring_spec[of "'']a[b''" "''[''" 2 "'']''" 0] h5 h6 by blast
  have h2': "first_occurrence_from ''a[b]c'' '']'' 2 3" by code_simp
  have h6': "absent_from '']a[b'' '']'' 3" by code_simp
  show ?thesis using h1 h2' h3 h4 h5 h6' r1 r2 r3 r4 by blast
qed

subsection \<open>extract_single_function_name\<close>

lemma fold_visit:
  "(\<And>c acc. c \<in> set cs \<Longrightarrow> visit c acc = acc @ def_names c)
     \<Longrightarrow> fold visit cs acc = acc @ concat (map def_names cs)"
  by (induction cs arbitrary: acc) simp_all

lemma visit_def_names: "visit t acc = acc @ def_names t"
proof (induction t arbitrary: acc)
  case (Node c nm children)
  then show ?case by (simp add: fold_visit)
qed

lemma length_def_names: "length (def_names t) = count_cls ''FunctionDef'' t"
proof (induction t)
  case (Node c nm children)
  have "length (concat (map def_names children)) =
        sum_list (map (count_cls ''FunctionDef'') children)"
    using Node by (induction children) simp_all
  then show ?case by simp
qed

lemma extract_name_eq:
  "prs code = Inr tree \<Longrightarrow>
     extract_single_function_name prs code =
       Inr (if length (def_names tree) = 1 then Some (def_names tree ! 0) else None)"
  by (simp add: extract_single_function_name_def visit_def_names)

lemma extract_name_cases:
  assumes "prs code = Inr tree"
  shows "(count_cls ''FunctionDef'' tree = 1 \<longrightarrow>
           (\<exists>n. def_names tree = [n] \<and>
                extract_single_function_name prs code = Inr (Some n)))
       \<and> (count_cls ''FunctionDef'' tree \<noteq> 1 \<longrightarrow>
           extract_single_function_name prs code = Inr None)"
proof (intro conjI impI)
  assume "count_cls ''FunctionDef'' tree = 1"
  then have "length (def_names tree) = 1" by (simp add: length_def_names)
  then obtain n where n: "def_names tree = [n]"
    by (cases "def_names tree") auto
  then show "\<exists>n. def_names tree = [n] \<and>
      extract_single_function_name prs code = Inr (Some n)"
    using assms extract_name_eq[of prs code tree] by simp
next
  assume "count_cls ''FunctionDef'' tree \<noteq> 1"
  then show "extract_single_function_name prs code = Inr None"
    using assms extract_name_eq[of prs code tree] by (simp add: length_def_names)
qed

lemmas ex_defs = extract_single_function_name_def parse_examples_def src_def_foo_def
  src_two_defs_def src_nested_def_def FunctionDef_def leaf_def

lemma extract_name_examples:
  "extract_single_function_name parse_examples src_def_foo = Inr (Some ''foo'')"
  "extract_single_function_name parse_examples ''x = 1'' = Inr None"
  "extract_single_function_name parse_examples src_two_defs = Inr None"
  "extract_single_function_name parse_examples src_nested_def = Inr None"
  "extract_single_function_name parse_examples ''async def foo(): pass'' = Inr None"
  by (simp_all add: ex_defs)

text \<open>
  Claim C6. For a source that parses to \<open>tree\<close>, \<open>extract_single_function_name\<close>
  returns the collected name exactly when the tree holds one \<open>FunctionDef\<close> node,
  nested ones counted, and \<open>None\<close> otherwise. On the trees of the specification's
  examples it returns \<open>foo\<close> for \<open>def foo(): pass\<close>, and \<open>None\<close> for \<open>x = 1\<close> and for two
  definitions.
\<close>

theorem extract_single_function_name_spec:
  "(prs code = Inr tree \<longrightarrow>
      (count_cls ''FunctionDef'' tree = 1 \<longrightarrow>
         (\<exists>n. def_names tree = [n] \<and>
              extract_single_function_name prs code = Inr (Some n))) \<and>
      (count_cls ''FunctionDef'' tree \<noteq> 1 \<longrightarrow>
         extract_single_function_name prs code = Inr None))
   \<and> extract_single_function_name parse_examples src_def_foo = Inr (Some ''foo'')
   \<and> extract_single_function_name parse_examples ''x = 1'' = Inr None
   \<and> extract_single_function_name parse_examples src_two_defs = Inr None"
  using extract_name_cases[of prs code tree] extract_name_examples by blast

theorem extract_single_function_name_spec_witness:
  "parse_examples src_nested_def =
      Inr (Node ''Module'' [] [FunctionDef ''a'' [FunctionDef ''b'' [leaf ''Pass'']]])
   \<and> count_cls ''FunctionDef''
        (Node ''Module'' [] [FunctionDef ''a'' [FunctionDef ''b'' [leaf ''Pass'']]]) = 2
   \<and> extract_single_function_name parse_examples src_nested_def = Inr None
   \<and> parse_examples src_def_foo =
        Inr (Node ''Module'' [] [FunctionDef ''foo'' [leaf ''Pass'']])
   \<and> count_cls ''FunctionDef''
        (Node ''Module'' [] [FunctionDef ''foo'' [leaf ''Pass'']]) = 1
   \<and> (\<exists>n. def_names (Node ''Module'' [] [FunctionDef ''foo'' [leaf ''Pass'']]) = [n]
          \<and> extract_single_function_name parse_examples src_def_foo = Inr (Some n))"
proof -
  have p1: "parse_examples src_nested_def =
      Inr (Node ''Module'' [] [FunctionDef ''a'' [FunctionDef ''b'' [leaf ''Pass'']]])"
    by (simp add: ex_defs)
  have c1: "count_cls ''FunctionDef''
        (Node ''Module'' [] [FunctionDef ''a'' [FunctionDef ''b'' [leaf ''Pass'']]]) = 2"
    by (simp add: ex_defs)
  have p2: "parse_examples src_def_foo =
        Inr (Node ''Module'' [] [FunctionDef ''foo'' [leaf ''Pass'']])"
    by (simp add: ex_defs)
  have c2: "count_cls ''FunctionDef''
        (Node ''Module'' [] [FunctionDef ''foo'' [leaf ''Pass'']]) = 1"
    by (simp add: ex_defs)
  have "count_cls ''FunctionDef''
        (Node ''Module'' [] [FunctionDef ''a'' [FunctionDef ''b'' [leaf ''Pass'']]]) \<noteq> 1"
    using c1 by simp
  then have r1: "extract_single_function_name parse_examples src_nested_def = Inr None"
    using p1 extract_single_function_name_spec[of parse_examples src_nested_def
        "Node ''Module'' [] [FunctionDef ''a'' [FunctionDef ''b'' [leaf ''Pass'']]]"]
    by blast
  have r2: "\<exists>n. def_names (Node ''Module'' [] [FunctionDef ''foo'' [leaf ''Pass'']]) = [n]
          \<and> extract_single_function_name parse_examples src_def_foo = Inr (Some n)"
    using p2 c2 extract_single_function_name_spec[of parse_examples src_def_foo
        "Node ''Module'' [] [FunctionDef ''foo'' [leaf ''Pass'']]"]
    by blast
  show ?thesis using p1 c1 r1 p2 c2 r2 by blast
qed

text \<open>
  Claim C10. A source whose tree holds no \<open>FunctionDef\<close> node, its function
  definitions being \<open>AsyncFunctionDef\<close> nodes, yields \<open>None\<close>: the collector has no
  method for the async class, so such a definition is not collected. The tree of
  \<open>async def foo(): pass\<close> is an instance.
\<close>

theorem async_def_not_collected:
  "(prs code = Inr tree \<and> count_cls ''FunctionDef'' tree = 0 \<and>
    count_cls ''AsyncFunctionDef'' tree = 1 \<longrightarrow>
      visit tree [] = [] \<and> extract_single_function_name prs code = Inr None)
   \<and> extract_single_function_name parse_examples ''async def foo(): pass'' = Inr None"
proof -
  have "visit tree [] = [] \<and> extract_single_function_name prs code = Inr None"
    if "prs code = Inr tree" "count_cls ''FunctionDef'' tree = 0"
  proof -
    have "def_names tree = []" using that(2) length_def_names[of tree] by simp
    then show ?thesis
      using that(1) extract_name_eq[of prs code tree] by (simp add: visit_def_names)
  qed
  then show ?thesis using extract_name_examples(5) by blast
qed

theorem async_def_not_collected_witness:
  "parse_examples ''async def foo(): pass'' =
      Inr (Node ''Module'' []
             [Node ''AsyncFunctionDef'' ''foo'' [leaf ''arguments'', leaf ''Pass'']])
   \<and> count_cls ''FunctionDef'' (Node ''Module'' []
         [Node ''AsyncFunctionDef'' ''foo'' [leaf ''arguments'', leaf ''Pass'']]) = 0
   \<and> count_cls ''AsyncFunctionDef'' (Node ''Module'' []
         [Node ''AsyncFunctionDef'' ''foo'' [leaf ''arguments'', leaf ''Pass'']]) = 1
   \<and> visit (Node ''Module'' []
         [Node ''AsyncFunctionDef'' ''foo'' [leaf ''arguments'', leaf ''Pass'']]) [] = []
   \<and> extract_single_function_name parse_examples ''async def foo(): pass'' = Inr None"
proof -
  let ?t = "Node ''Module'' []
         [Node ''AsyncFunctionDef'' ''foo'' [leaf ''arguments'', leaf ''Pass'']]"
  have p: "parse_examples ''async def foo(): pass'' = Inr ?t"
    by (simp add: ex_defs)
  have c0: "count_cls ''FunctionDef'' ?t = 0" by (simp add: leaf_def)
  have c1: "count_cls ''AsyncFunctionDef'' ?t = 1" by (simp add: leaf_def)
  have "visit ?t [] = [] \<and>
      extract_single_function_name parse_examples ''async def foo(): pass'' = Inr None"
    using p c0 c1
      async_def_not_collected[of parse_examples "''async def foo(): pass''" ?t]
    by blast
  then show ?thesis using p c0 c1 by blast
qed

section \<open>Properties of the generation pipeline\<close>

lemmas gen_defs = generate_python_code_def Let_def env_fixed_def env_then_fail_def
  session0_def log_info_def log_error_def

text \<open>
  Claim C1, as the code has it. When the generated code fails to parse, the
  \<open>SyntaxError\<close> does not leave \<open>generate_python_code\<close>: the \<open>except Exception\<close> clause
  catches it, the error and the script are logged, the name becomes \<open>lol\<close>, and a
  \<open>PythonFunction\<close> with that name and the unparsed script is returned.
\<close>

theorem syntax_error_replaced_by_sentinel:
  assumes "complete ev (calls w) msgs ''gpt-4'' = Inr response"
    and "parse ev (extract_substring response ''```python'' ''```'') = Inl (SyntaxError m)"
  shows "generate_python_code ev msgs w =
     (Inr \<lparr>name = ''lol'', content = extract_substring response ''```python'' ''```''\<rparr>,
      log_info ''Generated Python function: lol''
        (log_error (''Python script: '' @ extract_substring response ''```python'' ''```'')
          (log_error (''Error extracting function name: '' @ m)
            (w\<lparr>calls := Suc (calls w)\<rparr>))))"
  using assms
  by (simp add: generate_python_code_def extract_single_function_name_def Let_def)

theorem syntax_error_replaced_by_sentinel_witness:
  "generate_python_code (env_fixed ''x ='') [(''user'', ''hello'')] session0 =
     (Inr \<lparr>name = ''lol'', content = ''x =''\<rparr>,
      \<lparr>calls = 1, log_records =
         [(ERROR, ''Error extracting function name: invalid syntax (<unknown>, line 1)''),
          (ERROR, ''Python script: x =''),
          (INFO, ''Generated Python function: lol'')]\<rparr>)"
proof -
  have a: "complete (env_fixed ''x ='') (calls session0) [(''user'', ''hello'')] ''gpt-4''
      = Inr ''x =''"
    by (simp add: env_fixed_def)
  have s: "extract_substring ''x ='' ''```python'' ''```'' = ''x =''"
    by (simp add: str_defs)
  have b: "parse (env_fixed ''x ='') (extract_substring ''x ='' ''```python'' ''```'')
      = Inl (SyntaxError ''invalid syntax (<unknown>, line 1)'')"
    by (simp add: s env_fixed_def ex_defs)
  show ?thesis using syntax_error_replaced_by_sentinel[OF a b]
    by (simp add: s session0_def log_info_def log_error_def)
qed

text \<open>
  Claim C1 as the specification words it (the \<open>SyntaxError\<close> propagates) fails on a
  response that does not parse: the call returns a function named \<open>lol\<close>.
\<close>

theorem syntax_error_does_not_propagate:
  "parse (env_fixed ''def (:'') (extract_substring ''def (:'' ''```python'' ''```'')
      = Inl (SyntaxError ''invalid syntax (<unknown>, line 1)'')
   \<and> fst (generate_python_code (env_fixed ''def (:'') [] session0)
      = Inr \<lparr>name = ''lol'', content = ''def (:''\<rparr>
   \<and> fst (generate_python_code (env_fixed ''def (:'') [] session0)
      \<noteq> Inl (SyntaxError ''invalid syntax (<unknown>, line 1)'')"
  by (simp add: gen_defs ex_defs str_defs)

text \<open>
  Claim C2, as the code has it. When the generated code parses and holds zero or
  several function definitions, \<open>extract_single_function_name\<close> returns \<open>None\<close> without
  raising; \<open>generate_python_code\<close> then logs nothing, substitutes no name and raises
  \<open>ValueError\<close>.
\<close>

theorem not_exactly_one_raises_value_error:
  assumes "complete ev (calls w) msgs ''gpt-4'' = Inr response"
    and "parse ev (extract_substring response ''```python'' ''```'') = Inr tree"
    and "count_cls ''FunctionDef'' tree \<noteq> 1"
  shows "extract_single_function_name (parse ev)
           (extract_substring response ''```python'' ''```'') = Inr None
     \<and> generate_python_code ev msgs w =
           (Inl (ValueError not_exactly_one), w\<lparr>calls := Suc (calls w)\<rparr>)"
  using assms
  by (simp add: generate_python_code_def extract_single_function_name_def
      visit_def_names length_def_names Let_def)

theorem not_exactly_one_raises_value_error_witness:
  "generate_python_code (env_fixed ''x = 1'') [(''user'', ''hello'')] session0
      = (Inl (ValueError not_exactly_one), \<lparr>calls = 1, log_records = []\<rparr>)"
proof -
  let ?t = "Node ''Module'' []
      [Node ''Assign'' [] [Node ''Name'' [] [leaf ''Store''], leaf ''Constant'']]"
  have a: "complete (env_fixed ''x = 1'') (calls session0) [(''user'', ''hello'')] ''gpt-4''
      = Inr ''x = 1''"
    by (simp add: env_fixed_def)
  have s: "extract_substring ''x = 1'' ''```python'' ''```'' = ''x = 1''"
    by (simp add: str_defs)
  have b: "parse (env_fixed ''x = 1'') (extract_substring ''x = 1'' ''```python'' ''```'')
      = Inr ?t"
    by (simp add: s env_fixed_def ex_defs)
  have c: "count_cls ''FunctionDef'' ?t \<noteq> 1" by (simp add: leaf_def)
  show ?thesis using not_exactly_one_raises_value_error[OF a b c]
    by (simp add: session0_def)
qed

text \<open>
  Claim C2 as the specification words it (the failure is logged with the script and
  the sentinel name is substituted) fails on a response with two definitions: the
  call raises and the log stays empty.
\<close>

theorem two_defs_not_logged_no_sentinel:
  "extract_single_function_name (parse (env_fixed src_two_defs))
       (extract_substring src_two_defs ''```python'' ''```'') = Inr None
   \<and> generate_python_code (env_fixed src_two_defs) [] session0
      = (Inl (ValueError not_exactly_one), \<lparr>calls = 1, log_records = []\<rparr>)"
  by (simp add: gen_defs ex_defs str_defs)

text \<open>
  Claim C8. When the provider answers and the name extraction returns \<open>None\<close>,
  \<open>generate_python_code\<close> raises \<open>ValueError\<close>; it returns no \<open>PythonFunction\<close>.
\<close>

theorem absent_name_raises:
  assumes "complete ev (calls w) msgs ''gpt-4'' = Inr response"
    and "extract_single_function_name (parse ev)
           (extract_substring response ''```python'' ''```'') = Inr None"
  shows "fst (generate_python_code ev msgs w) = Inl (ValueError not_exactly_one)
     \<and> (\<forall>pf. fst (generate_python_code ev msgs w) \<noteq> Inr pf)"
  using assms by (simp add: generate_python_code_def Let_def)

theorem absent_name_raises_witness:
  "extract_single_function_name (parse (env_fixed src_nested_def))
       (extract_substring src_nested_def ''```python'' ''```'') = Inr None
   \<and> fst (generate_python_code (env_fixed src_nested_def) [] session0)
        = Inl (ValueError not_exactly_one)"
proof -
  have a: "complete (env_fixed src_nested_def) (calls session0) [] ''gpt-4''
      = Inr src_nested_def"
    by (simp add: env_fixed_def)
  have b: "extract_single_function_name (parse (env_fixed src_nested_def))
       (extract_substring src_nested_def ''```python'' ''```'') = Inr None"
    by (simp add: env_fixed_def ex_defs str_defs)
  show ?thesis using absent_name_raises[OF a b] b by blast
qed

text \<open>
  Claim C7. If \<open>generate_python_function\<close> succeeds and \<open>generate_python_test\<close> then
  raises, \<open>PythonFileScript.add_function\<close> raises the same error and the script is as
  before: no suite is appended to its function list.
\<close>

theorem add_function_aborts_without_suite:
  assumes "generate_python_function ev goal w = (Inr f, w1)"
    and "generate_python_test ev self f pkg w1 = (Inl e, w2)"
  shows "script_add_function ev self goal pkg w = (Inl e, self, w2)
     \<and> functions (fst (snd (script_add_function ev self goal pkg w))) = functions self"
  using assms by (simp add: script_add_function_def)

theorem add_function_aborts_without_suite_witness:
  "script_add_function env_then_fail \<lparr>functions = [], module_name = ''main''\<rparr>
      ''add two numbers'' ''testpackage'' session0 =
     (Inl (ProviderError ''rate limit''), \<lparr>functions = [], module_name = ''main''\<rparr>,
      \<lparr>calls = 2, log_records = [(INFO, ''Generated Python function: foo'')]\<rparr>)"
proof -
  have a: "generate_python_function env_then_fail ''add two numbers'' session0 =
     (Inr \<lparr>name = ''foo'', content = src_def_foo\<rparr>,
      \<lparr>calls = 1, log_records = [(INFO, ''Generated Python function: foo'')]\<rparr>)"
    by (simp add: generate_python_function_def gen_defs ex_defs str_defs)
  have b: "generate_python_test env_then_fail \<lparr>functions = [], module_name = ''main''\<rparr>
      \<lparr>name = ''foo'', content = src_def_foo\<rparr> ''testpackage''
      \<lparr>calls = 1, log_records = [(INFO, ''Generated Python function: foo'')]\<rparr> =
     (Inl (ProviderError ''rate limit''),
      \<lparr>calls = 2, log_records = [(INFO, ''Generated Python function: foo'')]\<rparr>)"
    by (simp add: generate_python_test_def gen_defs)
  show ?thesis using add_function_aborts_without_suite[OF a b] by blast
qed

section \<open>Properties of the workspace files\<close>

subsection \<open>Reading the tree after a change\<close>

lemma lookup_append:
  "lookup n (p @ q) = (case lookup n p of None \<Rightarrow> None | Some m \<Rightarrow> lookup m q)"
proof (induction p arbitrary: n)
  case Nil
  then show ?case by simp
next
  case (Cons x xs)
  show ?case
  proof (cases n)
    case (File c)
    then show ?thesis by simp
  next
    case (Dir es)
    then show ?thesis using Cons.IH by (simp split: option.splits)
  qed
qed

lemma lookup_child:
  "lookup n p = Some (Dir es) \<Longrightarrow> lookup n (p @ [x]) = map_of es x"
  by (simp add: lookup_append split: option.splits)

lemma lookup_below_file:
  "lookup n p = Some (File c) \<Longrightarrow> lookup n (p @ x # xs) = None"
  by (simp add: lookup_append)

lemma lookup_below_none:
  "lookup n p = None \<Longrightarrow> lookup n (p @ q) = None"
  by (simp add: lookup_append)

lemma lookup_prefix_some:
  "lookup n (p @ q) = Some m \<Longrightarrow> \<exists>k. lookup n p = Some k"
  by (cases "lookup n p") (simp_all add: lookup_append)

lemma lookup_modify_ancestor:
  "lookup (modify_dir (p @ q) f n) p = map_option (modify_dir q f) (lookup n p)"
proof (induction p arbitrary: n)
  case Nil
  then show ?case by simp
next
  case (Cons x xs)
  show ?case
  proof (cases n)
    case (File c)
    then show ?thesis by simp
  next
    case (Dir es)
    then show ?thesis using Cons.IH
      by (simp add: update_conv' split: option.splits)
  qed
qed

lemma lookup_modify_same:
  "lookup n p = Some (Dir es) \<Longrightarrow> lookup (modify_dir p f n) p = Some (Dir (f es))"
  using lookup_modify_ancestor[of p "[]" f n] by simp

lemma lookup_modify_other:
  "\<not> prefix p q \<Longrightarrow> \<not> prefix q p \<Longrightarrow> lookup (modify_dir p f n) q = lookup n q"
proof (induction p arbitrary: q n)
  case Nil
  then show ?case by simp
next
  case (Cons x xs)
  then obtain y ys where q: "q = y # ys" by (cases q) auto
  show ?case
  proof (cases n)
    case (File c)
    then show ?thesis by simp
  next
    case (Dir es)
    show ?thesis
    proof (cases "map_of es x")
      case None
      then show ?thesis using Dir by simp
    next
      case (Some c)
      show ?thesis
      proof (cases "y = x")
        case True
        then have "\<not> prefix xs ys" "\<not> prefix ys xs" using Cons.prems q by auto
        then show ?thesis using Cons.IH[of ys c] Dir Some q True
          by (simp add: update_conv')
      next
        case False
        then show ?thesis using Dir Some q by (simp add: update_conv')
      qed
    qed
  qed
qed

lemma lookup_modify_key:
  assumes f: "\<And>es y. y \<noteq> x \<Longrightarrow> map_of (f es) y = map_of es y"
    and np: "\<not> prefix (r @ [x]) q" and nq: "\<not> prefix q r"
  shows "lookup (modify_dir r f fs) q = lookup fs q"
proof (cases "prefix r q")
  case False
  then show ?thesis using nq by (rule lookup_modify_other)
next
  case True
  then obtain zs where zs: "q = r @ zs" by (auto simp: prefix_def)
  then have "zs \<noteq> []" using nq by auto
  then obtain y ys where yys: "zs = y # ys" by (cases zs) auto
  have yx: "y \<noteq> x" using np zs yys by auto
  show ?thesis
  proof (cases "lookup fs r")
    case None
    then show ?thesis using zs lookup_modify_ancestor[of r "[]" f fs]
      by (simp add: lookup_append)
  next
    case (Some m)
    then show ?thesis using zs yys yx f lookup_modify_ancestor[of r "[]" f fs]
      by (cases m) (simp_all add: lookup_append)
  qed
qed

lemma lookup_put_parent:
  "lookup fs r = Some (Dir es) \<Longrightarrow>
     lookup (put (r @ [x]) v fs) r = Some (Dir (AList.update x v es))"
  by (simp add: put_def lookup_modify_same)

lemma lookup_put_same:
  "lookup fs r = Some (Dir es) \<Longrightarrow> lookup (put (r @ [x]) v fs) (r @ [x]) = Some v"
  by (simp add: lookup_child[OF lookup_put_parent] update_conv')

lemma lookup_put_other:
  "\<not> prefix (r @ [x]) q \<Longrightarrow> \<not> prefix q r \<Longrightarrow> lookup (put (r @ [x]) v fs) q = lookup fs q"
  unfolding put_def butlast_snoc last_snoc
  by (rule lookup_modify_key) (simp_all add: update_conv')

lemma lookup_remove_parent:
  "lookup fs r = Some (Dir es) \<Longrightarrow>
     lookup (remove (r @ [x]) fs) r = Some (Dir (AList.delete x es))"
  by (simp add: remove_def lookup_modify_same)

lemma lookup_remove_other:
  "\<not> prefix (r @ [x]) q \<Longrightarrow> \<not> prefix q r \<Longrightarrow> lookup (remove (r @ [x]) fs) q = lookup fs q"
  unfolding remove_def butlast_snoc last_snoc
  by (rule lookup_modify_key) (simp_all add: delete_conv')

subsection \<open>The system calls on places of the tree\<close>

lemma lookup_snoc_some:
  assumes "lookup fs (r @ [x]) = Some v"
  shows "\<exists>es. lookup fs r = Some (Dir es) \<and> map_of es x = Some v"
proof (cases "lookup fs r")
  case None
  then show ?thesis using assms by (simp add: lookup_append)
next
  case (Some m)
  then show ?thesis using assms
    by (cases m) (simp_all add: lookup_append split: option.splits)
qed

lemma update_new_key: "k \<notin> fst ` set al \<Longrightarrow> AList.update k v al = al @ [(k, v)]"
  by (induction al) auto

lemma mkdir_new:
  "lookup fs r = Some (Dir es) \<Longrightarrow> map_of es x = None \<Longrightarrow>
     mkdir (r @ [x]) fs = Inr (put (r @ [x]) (Dir []) fs)"
  by (simp add: mkdir_def lookup_child)

lemma creatable_butlast: "creatable fs (r @ [x]) \<Longrightarrow> creatable fs r"
  by (auto simp: creatable_def in_set_prefixes)

lemma creatable_not_file:
  assumes "creatable fs p"
  shows "lookup fs p \<noteq> Some (File c)"
proof -
  have "p \<in> set (prefixes p)" by (simp add: in_set_prefixes)
  then have "case lookup fs p of Some (File c) \<Rightarrow> False | _ \<Rightarrow> True"
    using assms unfolding creatable_def by blast
  then show ?thesis by (auto split: option.splits node.splits)
qed

lemma lookup_below_empty_dir:
  "lookup n p = Some (Dir []) \<Longrightarrow> lookup n (p @ z # zs) = None"
  by (simp add: lookup_append)

lemma put_new_dir_frame:
  assumes r: "lookup fs r = Some (Dir es)" and x: "map_of es x = None"
    and q: "\<not> prefix q (r @ [x])"
  shows "lookup (put (r @ [x]) (Dir []) fs) q = lookup fs q"
proof (cases "prefix (r @ [x]) q")
  case False
  moreover have "\<not> prefix q r" using q by (auto simp: prefix_def)
  ultimately show ?thesis by (rule lookup_put_other)
next
  case True
  then obtain zs where zs: "q = (r @ [x]) @ zs" by (auto simp: prefix_def)
  then have "zs \<noteq> []" using q by auto
  then obtain z zs' where zz: "zs = z # zs'" by (cases zs) auto
  have "lookup (put (r @ [x]) (Dir []) fs) q = None"
    unfolding zs zz by (rule lookup_below_empty_dir[OF lookup_put_same[OF r]])
  moreover have "lookup fs (r @ [x]) = None" using r x by (simp add: lookup_child)
  then have "lookup fs q = None" unfolding zs by (rule lookup_below_none)
  ultimately show ?thesis by simp
qed

lemma listdir_dir: "lookup fs p = Some (Dir es) \<Longrightarrow> listdir p fs = Inr (map fst es)"
  by (simp add: listdir_def)

lemma rename_into_dir:
  assumes src: "lookup fs (ws @ [f]) = Some n"
    and dir: "lookup fs bs = Some (Dir ds)"
    and new: "map_of ds f = None"
    and inc: "\<not> prefix ws bs" "ws \<noteq> bs"
  shows "rename (ws @ [f]) (bs @ [f]) fs = Inr (put (bs @ [f]) n (remove (ws @ [f]) fs))"
proof -
  have "\<not> prefix (ws @ [f]) (bs @ [f])" using inc by (auto dest: append_prefixD)
  moreover have "lookup fs (bs @ [f]) = None" using dir new by (simp add: lookup_child)
  ultimately show ?thesis using src dir inc by (simp add: rename_def)
qed

subsection \<open>Path strings made of plain names\<close>

lemma split_sep_plain: "CHR ''/'' \<notin> set n \<Longrightarrow> split_sep n = [n]"
  by (induction n) auto

lemma plain_name_facts:
  "plain_name n \<Longrightarrow> n \<noteq> [] \<and> n \<noteq> ''.'' \<and> n \<noteq> ''..'' \<and> split_sep n = [n] \<and> hd n \<noteq> CHR ''/''"
  by (cases n) (auto simp: plain_name_def split_sep_plain)

lemma plain_path_snoc [simp]: "plain_path (r @ [x]) \<longleftrightarrow> plain_path r \<and> plain_name x"
  by (auto simp: plain_path_def)

lemma plain_path_Nil [simp]: "plain_path []"
  by (simp add: plain_path_def)

lemma plain_path_last: "plain_path a \<Longrightarrow> a \<noteq> [] \<Longrightarrow> last a \<noteq> []"
  by (cases a rule: rev_cases) (auto simp: plain_name_def)

lemma os_path_join_plain:
  assumes "plain_path a" and "plain_name n"
  shows "os_path_join a n = a @ [n]"
proof (cases "a = []")
  case True
  then show ?thesis using plain_name_facts[OF assms(2)] by (simp add: os_path_join_def)
next
  case False
  then show ?thesis
    using plain_name_facts[OF assms(2)] plain_path_last[OF assms(1) False]
    by (simp add: os_path_join_def)
qed

lemma strip_slashes_snoc: "x \<noteq> [] \<Longrightarrow> strip_slashes (r @ [x]) = r @ [x]"
  by (simp add: strip_slashes_def)

lemma strip_slashes_plain: "plain_path p \<Longrightarrow> strip_slashes p = p"
  by (cases p rule: rev_cases) (auto simp: strip_slashes_def plain_name_def)

lemma os_path_split_plain:
  "plain_path r \<Longrightarrow> os_path_split (r @ [x]) = (r, x)"
  by (simp add: os_path_split_def strip_slashes_plain)

lemma makedirs_split_plain:
  "plain_path r \<Longrightarrow> plain_name x \<Longrightarrow> makedirs_split (r @ [x]) = (r, x)"
  by (simp add: makedirs_split_def os_path_split_plain plain_name_def)

lemma makedirs_split_Nil: "makedirs_split [] = ([], [])"
  by (simp add: makedirs_split_def os_path_split_def)

lemma walk_dirs_plain_ok:
  "plain_path cs \<Longrightarrow> lookup fs (cur @ cs) = Some (Dir es) \<Longrightarrow>
     walk_dirs fs cur cs = Inr (cur @ cs)"
proof (induction cs arbitrary: cur)
  case Nil
  then show ?case by simp
next
  case (Cons c cs)
  have pc: "plain_name c" and pcs: "plain_path cs"
    using Cons.prems(1) by (auto simp: plain_path_def)
  have l: "lookup fs ((cur @ [c]) @ cs) = Some (Dir es)" using Cons.prems(2) by simp
  from lookup_prefix_some[OF l] obtain k where k: "lookup fs (cur @ [c]) = Some k" by blast
  have "\<exists>ds. k = Dir ds"
  proof (cases k)
    case (File t)
    show ?thesis
    proof (cases cs)
      case Nil
      then show ?thesis using l k by simp
    next
      case (Cons a list)
      then show ?thesis
        using l lookup_below_file[of fs "cur @ [c]" t a list] k File by simp
    qed
  next
    case (Dir ds)
    then show ?thesis by simp
  qed
  then obtain ds where "lookup fs (cur @ [c]) = Some (Dir ds)" using k by blast
  then show ?case using Cons.IH[OF pcs l] plain_name_facts[OF pc] by simp
qed

lemma walk_dirs_plain_fail:
  "plain_path cs \<Longrightarrow> walk_dirs fs cur cs = Inl e \<Longrightarrow> lookup fs (cur @ cs @ [x]) = None"
proof (induction cs arbitrary: cur)
  case Nil
  then show ?case by simp
next
  case (Cons c cs)
  have pc: "plain_name c" and pcs: "plain_path cs"
    using Cons.prems(1) by (auto simp: plain_path_def)
  show ?case
  proof (cases "lookup fs (cur @ [c])")
    case None
    then show ?thesis using lookup_below_none[OF None, of "cs @ [x]"] by simp
  next
    case (Some k)
    show ?thesis
    proof (cases k)
      case (File t)
      obtain a list where al: "cs @ [x] = a # list" by (cases "cs @ [x]") auto
      have "lookup fs ((cur @ [c]) @ a # list) = None"
        using Some File lookup_below_file[of fs "cur @ [c]" t a list] by blast
      then show ?thesis using al by simp
    next
      case (Dir ds)
      then have "walk_dirs fs (cur @ [c]) cs = Inl e"
        using Cons.prems(2) Some plain_name_facts[OF pc] by simp
      from Cons.IH[OF pcs this] show ?thesis by simp
    qed
  qed
qed

lemma walk_dirs_plain_result:
  "plain_path cs \<Longrightarrow> walk_dirs fs cur cs = Inr q \<Longrightarrow> q = cur @ cs"
proof (induction cs arbitrary: cur)
  case Nil
  then show ?case by simp
next
  case (Cons c cs)
  have pc: "plain_name c" and pcs: "plain_path cs"
    using Cons.prems(1) by (auto simp: plain_path_def)
  from Cons.prems(2) plain_name_facts[OF pc]
  have "walk_dirs fs (cur @ [c]) cs = Inr q"
    by (auto split: option.splits node.splits)
  from Cons.IH[OF pcs this] show ?case by simp
qed

lemma resolve_Nil: "resolve fs [] = Inr []"
  by (simp add: resolve_def strip_slashes_def)

lemma resolve_plain_ok:
  assumes "plain_path r" and "plain_name x" and "lookup fs r = Some (Dir es)"
  shows "resolve fs (r @ [x]) = Inr (r @ [x])"
proof -
  have "walk_dirs fs [] r = Inr ([] @ r)"
    using assms(1,3) walk_dirs_plain_ok[of r fs "[]" es] by simp
  then show ?thesis
    using plain_name_facts[OF assms(2)]
    by (simp add: resolve_def strip_slashes_snoc Let_def)
qed

lemma resolve_plain_cases:
  assumes "plain_path p"
  shows "resolve fs p = Inr p \<or> (\<exists>e. resolve fs p = Inl e \<and> lookup fs p = None)"
proof (cases p rule: rev_cases)
  case Nil
  then show ?thesis by (simp add: resolve_Nil)
next
  case (snoc r x)
  then have pr: "plain_path r" and px: "plain_name x" using assms by auto
  have st: "strip_slashes (r @ [x]) = r @ [x]"
    using plain_name_facts[OF px] by (simp add: strip_slashes_snoc)
  have res: "resolve fs (r @ [x]) =
      (case walk_dirs fs [] r of Inl e \<Rightarrow> Inl e | Inr parent \<Rightarrow> Inr (parent @ [x]))"
    unfolding resolve_def Let_def st butlast_snoc last_snoc
    using plain_name_facts[OF px] by simp
  show ?thesis
  proof (cases "walk_dirs fs [] r")
    case (Inl e)
    then have "lookup fs ([] @ r @ [x]) = None" using pr by (rule walk_dirs_plain_fail[rotated])
    then show ?thesis using res Inl snoc by simp
  next
    case (Inr q)
    then have "q = r" using walk_dirs_plain_result[OF pr Inr] by simp
    then show ?thesis using res Inr snoc by simp
  qed
qed

lemma resolve_plain_existing:
  "plain_path p \<Longrightarrow> lookup fs p = Some n \<Longrightarrow> resolve fs p = Inr p"
  using resolve_plain_cases[of p fs] by auto

lemma not_trailing_plain: "plain_path p \<Longrightarrow> \<not> trailing_slash p"
  by (auto simp: trailing_slash_def dest: plain_path_last)

lemma not_final_dot_plain: "plain_path p \<Longrightarrow> \<not> final_dot p"
  by (cases p rule: rev_cases)
    (auto simp: final_dot_def strip_slashes_def plain_name_def)

lemma os_path_exists_plain:
  assumes "plain_path p"
  shows "os_path_exists fs p \<longleftrightarrow> lookup fs p \<noteq> None"
  using resolve_plain_cases[OF assms, of fs] not_trailing_plain[OF assms]
  by (auto simp: os_path_exists_def split: option.splits node.splits)

lemma os_path_isdir_plain:
  assumes "plain_path p"
  shows "os_path_isdir fs p = isdir fs p"
  using resolve_plain_cases[OF assms, of fs]
  by (auto simp: os_path_isdir_def isdir_def)

lemma os_mkdir_child:
  "plain_path r \<Longrightarrow> plain_name x \<Longrightarrow> lookup fs r = Some (Dir es) \<Longrightarrow>
     os_mkdir (r @ [x]) fs = mkdir (r @ [x]) fs"
  by (simp add: os_mkdir_def resolve_plain_ok)

lemma os_mkdir_existing:
  "plain_path p \<Longrightarrow> lookup fs p = Some n \<Longrightarrow> os_mkdir p fs = Inl FileExistsError"
  by (simp add: os_mkdir_def resolve_plain_existing mkdir_def)

lemma os_listdir_plain:
  "plain_path p \<Longrightarrow> lookup fs p = Some (Dir es) \<Longrightarrow> os_listdir p fs = Inr (map fst es)"
  by (simp add: os_listdir_def resolve_plain_existing listdir_def)

lemma os_open_w_plain:
  "plain_path r \<Longrightarrow> plain_name x \<Longrightarrow> lookup fs r = Some (Dir es) \<Longrightarrow>
     os_open_w (r @ [x]) fs =
       (case open_w (r @ [x]) fs of Inl e \<Rightarrow> Inl e | Inr fs1 \<Rightarrow> Inr (r @ [x], fs1))"
  using not_trailing_plain[of "r @ [x]"]
  by (simp add: os_open_w_def resolve_plain_ok)

lemma os_rename_plain:
  assumes "plain_path (ws @ [f])" and "plain_path (bs @ [f])"
    and "lookup fs (ws @ [f]) = Some n" and "lookup fs bs = Some (Dir ds)"
  shows "os_rename (ws @ [f]) (bs @ [f]) fs = rename (ws @ [f]) (bs @ [f]) fs"
proof -
  have 1: "resolve fs (ws @ [f]) = Inr (ws @ [f])"
    using assms(1,3) by (rule resolve_plain_existing)
  have 2: "resolve fs (bs @ [f]) = Inr (bs @ [f])"
    using assms(2,4) by (simp add: resolve_plain_ok)
  show ?thesis
    using 1 2 not_final_dot_plain[OF assms(1)] not_final_dot_plain[OF assms(2)]
    by (simp add: os_rename_def)
qed

subsection \<open>Creating directories\<close>

lemma os_makedirs_existing:
  assumes pp: "plain_path p" and d: "lookup fs p = Some (Dir es)"
  shows "os_makedirs p True fs = Inr fs"
proof -
  have c: "fst (makedirs_split p) = [] \<or> os_path_exists fs (fst (makedirs_split p))"
  proof (cases p rule: rev_cases)
    case Nil
    then show ?thesis by (simp add: makedirs_split_Nil)
  next
    case (snoc r x)
    then have pr: "plain_path r" and px: "plain_name x" using pp by auto
    have "lookup fs r \<noteq> None" using d lookup_prefix_some[of fs r "[x]"] snoc by auto
    then show ?thesis
      using snoc makedirs_split_plain[OF pr px] os_path_exists_plain[OF pr] by simp
  qed
  have mk: "os_mkdir p fs = Inl FileExistsError" using pp d by (rule os_mkdir_existing)
  have dir: "os_path_isdir fs p" using d by (simp add: os_path_isdir_plain[OF pp] isdir_def)
  show ?thesis using c mk dir by (subst os_makedirs.simps) auto
qed

lemma os_makedirs_child:
  assumes pr: "plain_path r" and px: "plain_name x"
    and d: "lookup fs r = Some (Dir es)" and n: "map_of es x = None"
  shows "os_makedirs (r @ [x]) ok fs = Inr (put (r @ [x]) (Dir []) fs)"
proof -
  have ms: "makedirs_split (r @ [x]) = (r, x)" using pr px by (rule makedirs_split_plain)
  have ex: "os_path_exists fs r" using d by (simp add: os_path_exists_plain[OF pr])
  have mk: "os_mkdir (r @ [x]) fs = Inr (put (r @ [x]) (Dir []) fs)"
    using os_mkdir_child[OF pr px d] mkdir_new[OF d n] by simp
  show ?thesis using ms ex mk by (subst os_makedirs.simps) simp
qed

lemma os_makedirs_new:
  "plain_path p \<Longrightarrow> creatable fs p \<Longrightarrow> lookup fs p = None \<Longrightarrow>
     \<exists>fs'. os_makedirs p ok fs = Inr fs' \<and> lookup fs' p = Some (Dir []) \<and>
           (\<forall>q. \<not> prefix q p \<longrightarrow> lookup fs' q = lookup fs q)"
proof (induction p arbitrary: fs rule: rev_induct)
  case Nil
  then show ?case by simp
next
  case (snoc x r)
  have pr: "plain_path r" and px: "plain_name x" using snoc.prems(1) by auto
  have ms: "makedirs_split (r @ [x]) = (r, x)" using pr px by (rule makedirs_split_plain)
  show ?case
  proof (cases "lookup fs r")
    case None
    then have rne: "r \<noteq> []" by auto
    from snoc.IH[OF pr creatable_butlast[OF snoc.prems(2)] None]
    obtain fs1 where m1: "os_makedirs r ok fs = Inr fs1"
      and d1: "lookup fs1 r = Some (Dir [])"
      and f1: "\<forall>q. \<not> prefix q r \<longrightarrow> lookup fs1 q = lookup fs q" by blast
    have nex: "\<not> os_path_exists fs r" using None by (simp add: os_path_exists_plain[OF pr])
    have mk: "os_mkdir (r @ [x]) fs1 = Inr (put (r @ [x]) (Dir []) fs1)"
      using os_mkdir_child[OF pr px d1] mkdir_new[OF d1, of x] by simp
    have res: "os_makedirs (r @ [x]) ok fs = Inr (put (r @ [x]) (Dir []) fs1)"
      using ms rne nex m1 mk plain_name_facts[OF px] by (subst os_makedirs.simps) simp
    have "\<forall>q. \<not> prefix q (r @ [x]) \<longrightarrow>
        lookup (put (r @ [x]) (Dir []) fs1) q = lookup fs q"
    proof (intro allI impI)
      fix q assume q: "\<not> prefix q (r @ [x])"
      then have "\<not> prefix q r" by (auto simp: prefix_def)
      then have "lookup fs1 q = lookup fs q" using f1 by blast
      moreover have "lookup (put (r @ [x]) (Dir []) fs1) q = lookup fs1 q"
        using d1 _ q by (rule put_new_dir_frame) simp
      ultimately show "lookup (put (r @ [x]) (Dir []) fs1) q = lookup fs q" by simp
    qed
    then show ?thesis using res lookup_put_same[OF d1] by blast
  next
    case (Some m)
    have "m \<noteq> File c" for c
      using creatable_not_file[OF creatable_butlast[OF snoc.prems(2)]] Some by auto
    then obtain es where es: "lookup fs r = Some (Dir es)" using Some by (cases m) auto
    have x: "map_of es x = None" using snoc.prems(3) es by (simp add: lookup_child)
    have res: "os_makedirs (r @ [x]) ok fs = Inr (put (r @ [x]) (Dir []) fs)"
      using pr px es x by (rule os_makedirs_child)
    have "\<forall>q. \<not> prefix q (r @ [x]) \<longrightarrow>
        lookup (put (r @ [x]) (Dir []) fs) q = lookup fs q"
      using put_new_dir_frame[OF es x] by blast
    then show ?thesis using res lookup_put_same[OF es] by blast
  qed
qed

subsection \<open>The backup loop\<close>

lemma not_prefix_snoc: "\<not> prefix a q \<Longrightarrow> \<not> prefix (a @ [f]) q"
  by (auto dest: append_prefixD)

lemma move_entries_all:
  assumes inc: "\<not> prefix ws bs" "\<not> prefix bs ws"
    and pw: "plain_path ws" and pb: "plain_path bs"
  shows "lookup fs ws = Some (Dir es) \<Longrightarrow> lookup fs bs = Some (Dir ds) \<Longrightarrow>
     distinct (map fst es) \<Longrightarrow> fst ` set es \<inter> fst ` set ds = {} \<Longrightarrow>
     \<forall>n \<in> fst ` set es. plain_name n \<Longrightarrow>
     \<exists>fs'. move_entries ws bs (map fst es) fs = Inr fs' \<and>
           lookup fs' ws = Some (Dir []) \<and> lookup fs' bs = Some (Dir (ds @ es)) \<and>
           (\<forall>q. \<not> prefix ws q \<and> \<not> prefix q ws \<and> \<not> prefix bs q \<and> \<not> prefix q bs
                \<longrightarrow> lookup fs' q = lookup fs q)"
proof (induction es arbitrary: fs ds)
  case Nil
  then show ?case by simp
next
  case (Cons e rest)
  obtain f n where e: "e = (f, n)" by (cases e)
  have ne: "ws \<noteq> bs" using inc by auto
  have pf: "plain_name f" using Cons.prems(5) e by simp
  have fr: "f \<notin> fst ` set rest" and fd: "f \<notin> fst ` set ds"
    using Cons.prems(3,4) e by auto
  have src: "lookup fs (ws @ [f]) = Some n"
    using Cons.prems(1) e by (simp add: lookup_child)
  have new: "map_of ds f = None" using fd by (simp add: map_of_eq_None_iff)
  define fs0 where "fs0 = remove (ws @ [f]) fs"
  define fs1 where "fs1 = put (bs @ [f]) n fs0"
  have "rename (ws @ [f]) (bs @ [f]) fs = Inr fs1"
    unfolding fs1_def fs0_def using src Cons.prems(2) new inc(1) ne by (rule rename_into_dir)
  moreover have "os_rename (ws @ [f]) (bs @ [f]) fs = rename (ws @ [f]) (bs @ [f]) fs"
    using pw pb pf src Cons.prems(2) by (intro os_rename_plain) simp_all
  ultimately have rn: "os_rename (os_path_join ws f) (os_path_join bs f) fs = Inr fs1"
    using os_path_join_plain[OF pw pf] os_path_join_plain[OF pb pf] by simp
  have w0: "lookup fs0 ws = Some (Dir rest)"
    unfolding fs0_def using lookup_remove_parent[OF Cons.prems(1), of f] e fr by simp
  have b0: "lookup fs0 bs = Some (Dir ds)"
    unfolding fs0_def using Cons.prems(2) inc
    by (simp add: lookup_remove_other not_prefix_snoc)
  have w1: "lookup fs1 ws = Some (Dir rest)"
    unfolding fs1_def using w0 inc by (simp add: lookup_put_other not_prefix_snoc)
  have b1: "lookup fs1 bs = Some (Dir (ds @ [(f, n)]))"
    unfolding fs1_def using lookup_put_parent[OF b0, of f n] fd by (simp add: update_new_key)
  have d1: "distinct (map fst rest)" using Cons.prems(3) by simp
  have i1: "fst ` set rest \<inter> fst ` set (ds @ [(f, n)]) = {}"
    using Cons.prems(3,4) e by auto
  have p1: "\<forall>n \<in> fst ` set rest. plain_name n" using Cons.prems(5) by simp
  from Cons.IH[OF w1 b1 d1 i1 p1]
  obtain fs' where m: "move_entries ws bs (map fst rest) fs1 = Inr fs'"
    and w: "lookup fs' ws = Some (Dir [])"
    and b: "lookup fs' bs = Some (Dir ((ds @ [(f, n)]) @ rest))"
    and fr': "\<forall>q. \<not> prefix ws q \<and> \<not> prefix q ws \<and> \<not> prefix bs q \<and> \<not> prefix q bs
                \<longrightarrow> lookup fs' q = lookup fs1 q" by blast
  have "\<forall>q. \<not> prefix ws q \<and> \<not> prefix q ws \<and> \<not> prefix bs q \<and> \<not> prefix q bs
                \<longrightarrow> lookup fs' q = lookup fs q"
  proof (intro allI impI)
    fix q assume q: "\<not> prefix ws q \<and> \<not> prefix q ws \<and> \<not> prefix bs q \<and> \<not> prefix q bs"
    then have "lookup fs1 q = lookup fs0 q"
      unfolding fs1_def by (simp add: lookup_put_other not_prefix_snoc)
    moreover have "lookup fs0 q = lookup fs q"
      unfolding fs0_def using q by (simp add: lookup_remove_other not_prefix_snoc)
    ultimately show "lookup fs' q = lookup fs q" using fr' q by simp
  qed
  then show ?case using rn m w b e by simp
qed

subsection \<open>Opening, writing and the package markers\<close>

lemma open_w_ok:
  "lookup fs r = Some (Dir es) \<Longrightarrow> not_a_directory fs (r @ [x]) \<Longrightarrow>
     open_w (r @ [x]) fs = Inr (put (r @ [x]) (File []) fs)"
  by (auto simp: open_w_def not_a_directory_def split: option.splits node.splits)

lemma file_write_file:
  "lookup fs p = Some (File c) \<Longrightarrow> file_write p d fs = put p (File (c @ d)) fs"
  by (simp add: file_write_def)

lemma lookup_put_grandparent:
  assumes "lookup g ws = Some (Dir es)" and "map_of es nm = Some (Dir cs)"
  shows "lookup (put (ws @ [nm, x]) v g) ws =
     Some (Dir (AList.update nm (Dir (AList.update x v cs)) es))"
proof -
  have "put (ws @ [nm, x]) v g = modify_dir (ws @ [nm]) (AList.update x v) g"
    by (simp add: put_def butlast_append)
  then show ?thesis using assms lookup_modify_ancestor[of ws "[nm]" "AList.update x v" g]
    by simp
qed

lemma lookup_put_below_frame:
  assumes q: "\<not> prefix ws q" "\<not> prefix q ws"
  shows "lookup (put (ws @ zs @ [x]) v g) q = lookup g q"
proof -
  have 1: "\<not> prefix ((ws @ zs) @ [x]) q" using q(1) by (auto dest: append_prefixD)
  have 2: "\<not> prefix q (ws @ zs)"
  proof
    assume "prefix q (ws @ zs)"
    moreover have "prefix ws (ws @ zs)" by simp
    ultimately show False using q prefix_same_cases by blast
  qed
  show ?thesis using lookup_put_other[OF 1 2] by simp
qed

lemma write_marker:
  assumes ws: "lookup g ws = Some (Dir es)" and nm: "map_of es nm = Some (Dir cs)"
    and nd: "case map_of cs ''__init__.py'' of Some (Dir d) \<Rightarrow> False | _ \<Rightarrow> True"
  shows "\<exists>g2. open_w (ws @ [nm, ''__init__.py'']) g = Inr g2 \<and>
      lookup (file_write (ws @ [nm, ''__init__.py'']) [] g2) ws =
        Some (Dir (AList.update nm (Dir (AList.update ''__init__.py'' (File []) cs)) es)) \<and>
      (\<forall>q. \<not> prefix ws q \<and> \<not> prefix q ws \<longrightarrow>
          lookup (file_write (ws @ [nm, ''__init__.py'']) [] g2) q = lookup g q)"
proof -
  let ?p = "ws @ [nm, ''__init__.py'']"
  have par: "lookup g (ws @ [nm]) = Some (Dir cs)" using ws nm by (simp add: lookup_child)
  have tgt: "lookup g ((ws @ [nm]) @ [''__init__.py'']) = map_of cs ''__init__.py''"
    using par by (rule lookup_child)
  have "not_a_directory g ((ws @ [nm]) @ [''__init__.py''])"
    using nd tgt by (simp add: not_a_directory_def)
  then have "open_w ((ws @ [nm]) @ [''__init__.py'']) g =
      Inr (put ((ws @ [nm]) @ [''__init__.py'']) (File []) g)"
    using par open_w_ok by blast
  then have o: "open_w ?p g = Inr (put ?p (File []) g)" by simp
  define g2 where "g2 = put ?p (File []) g"
  have "lookup (put ((ws @ [nm]) @ [''__init__.py'']) (File []) g)
      ((ws @ [nm]) @ [''__init__.py'']) = Some (File [])"
    using par by (rule lookup_put_same)
  then have f2: "lookup g2 ?p = Some (File [])" by (simp add: g2_def)
  have w3: "file_write ?p [] g2 = put ?p (File []) g2"
    using file_write_file[OF f2, of "[]"] by simp
  have l2: "lookup g2 ws =
      Some (Dir (AList.update nm (Dir (AList.update ''__init__.py'' (File []) cs)) es))"
    unfolding g2_def using ws nm by (rule lookup_put_grandparent)
  have l3: "lookup (put ?p (File []) g2) ws =
      Some (Dir (AList.update nm (Dir (AList.update ''__init__.py'' (File []) cs)) es))"
    using lookup_put_grandparent[OF l2, of nm _ "''__init__.py''" "File []"]
    by (simp add: update_conv')
  have fr: "lookup (put ?p (File []) g2) q = lookup g q"
    if "\<not> prefix ws q \<and> \<not> prefix q ws" for q
    using that lookup_put_below_frame[of ws q "[nm]" "''__init__.py''"]
    by (simp add: g2_def)
  show ?thesis using o l3 fr w3 unfolding g2_def by auto
qed

lemma plain_init_py: "plain_name ''__init__.py''"
  by (simp add: plain_name_def)

lemma os_open_marker:
  assumes "plain_path ws" and "plain_name nm" and "lookup g (ws @ [nm]) = Some (Dir cs)"
  shows "os_open_w (os_path_join (ws @ [nm]) ''__init__.py'') g =
     (case open_w (ws @ [nm, ''__init__.py'']) g of
        Inl e \<Rightarrow> Inl e
      | Inr g1 \<Rightarrow> Inr (ws @ [nm, ''__init__.py''], g1))"
proof -
  have p: "plain_path (ws @ [nm])" using assms(1,2) by simp
  have "os_path_join (ws @ [nm]) ''__init__.py'' = (ws @ [nm]) @ [''__init__.py'']"
    using p plain_init_py by (rule os_path_join_plain)
  then show ?thesis using os_open_w_plain[OF p plain_init_py assms(3)]
    by (simp split: sum.split)
qed

lemma init_marker_existing:
  assumes pw: "plain_path ws" and pn: "plain_name nm"
    and ws: "lookup g ws = Some (Dir es)" and nm: "map_of es nm = Some (Dir cs)"
    and nd: "case map_of cs ''__init__.py'' of Some (Dir d) \<Rightarrow> False | _ \<Rightarrow> True"
  shows "\<exists>g'. init_marker (ws @ [nm]) g = Inr g' \<and>
      lookup g' ws =
        Some (Dir (AList.update nm (Dir (AList.update ''__init__.py'' (File []) cs)) es)) \<and>
      (\<forall>q. \<not> prefix ws q \<and> \<not> prefix q ws \<longrightarrow> lookup g' q = lookup g q)"
proof -
  have p: "plain_path (ws @ [nm])" using pw pn by simp
  have d: "lookup g (ws @ [nm]) = Some (Dir cs)" using ws nm by (simp add: lookup_child)
  have m: "os_makedirs (ws @ [nm]) True g = Inr g" using p d by (rule os_makedirs_existing)
  from write_marker[OF ws nm nd] show ?thesis
    using m os_open_marker[OF pw pn d] by (auto simp: init_marker_def)
qed

lemma init_marker_new:
  assumes pw: "plain_path ws" and pn: "plain_name nm"
    and ws: "lookup g ws = Some (Dir es)" and nm: "map_of es nm = None"
  shows "\<exists>g'. init_marker (ws @ [nm]) g = Inr g' \<and>
      lookup g' ws = Some (Dir (AList.update nm (Dir [(''__init__.py'', File [])]) es)) \<and>
      (\<forall>q. \<not> prefix ws q \<and> \<not> prefix q ws \<longrightarrow> lookup g' q = lookup g q)"
proof -
  define g1 where "g1 = put (ws @ [nm]) (Dir []) g"
  have m: "os_makedirs (ws @ [nm]) True g = Inr g1"
    unfolding g1_def using pw pn ws nm by (rule os_makedirs_child)
  have w1: "lookup g1 ws = Some (Dir (AList.update nm (Dir []) es))"
    unfolding g1_def using ws by (rule lookup_put_parent)
  have n1: "map_of (AList.update nm (Dir []) es) nm = Some (Dir [])"
    by (simp add: update_conv')
  have d1: "lookup g1 (ws @ [nm]) = Some (Dir [])"
    unfolding g1_def using ws by (rule lookup_put_same)
  have fr1: "lookup g1 q = lookup g q" if "\<not> prefix ws q \<and> \<not> prefix q ws" for q
    using that lookup_put_below_frame[of ws q "[]" nm] by (simp add: g1_def)
  from write_marker[OF w1 n1] obtain g2 where
    o: "open_w (ws @ [nm, ''__init__.py'']) g1 = Inr g2"
    and l: "lookup (file_write (ws @ [nm, ''__init__.py'']) [] g2) ws =
        Some (Dir (AList.update nm (Dir (AList.update ''__init__.py'' (File []) []))
                (AList.update nm (Dir []) es)))"
    and fr: "\<forall>q. \<not> prefix ws q \<and> \<not> prefix q ws \<longrightarrow>
          lookup (file_write (ws @ [nm, ''__init__.py'']) [] g2) q = lookup g1 q"
    by auto
  show ?thesis using m o l fr fr1 os_open_marker[OF pw pn d1] by (auto simp: init_marker_def)
qed

subsection \<open>init_workspace\<close>

lemma plain_tests: "plain_name ''tests''"
  by (simp add: plain_name_def)

lemma init_workspace_general:
  assumes ws: "lookup fs ws = Some (Dir es)"
    and ne: "es \<noteq> []"
    and dist: "distinct (map fst es)"
    and pes: "\<forall>n \<in> fst ` set es. plain_name n"
    and fresh: "lookup fs (bk @ [now]) = None"
    and cr: "creatable fs (bk @ [now])"
    and outside: "\<not> prefix ws bk"
    and pw: "plain_path ws" and pb: "plain_path bk"
    and pnow: "plain_name now" and ppkg: "plain_name pkg"
  shows "\<exists>fs'. init_workspace
            \<lparr>workspace_directory = ws, backup_directory = bk, package_name = pkg,
             scripts = ss\<rparr> now fs = Inr fs' \<and>
      lookup fs' ws =
        Some (Dir (if pkg = ''tests'' then [(''tests'', marker_dir)]
                   else [(pkg, marker_dir), (''tests'', marker_dir)])) \<and>
      lookup fs' (bk @ [now]) = Some (Dir es)"
proof -
  let ?bs = "bk @ [now]"
  have pbs: "plain_path ?bs" using pb pnow by simp
  have jb: "os_path_join bk now = ?bs" using pb pnow by (rule os_path_join_plain)
  have jp: "os_path_join ws pkg = ws @ [pkg]" using pw ppkg by (rule os_path_join_plain)
  have jt: "os_path_join ws ''tests'' = ws @ [''tests'']"
    using pw plain_tests by (rule os_path_join_plain)
  have n1: "\<not> prefix ws ?bs"
  proof
    assume "prefix ws ?bs"
    then have "ws = ?bs" using outside by simp
    then show False using ws fresh by simp
  qed
  have n2: "\<not> prefix ?bs ws"
  proof
    assume "prefix ?bs ws"
    then obtain zs where "ws = ?bs @ zs" by (auto simp: prefix_def)
    then show False using ws lookup_below_none[OF fresh, of zs] by simp
  qed
  have s1: "os_makedirs ws True fs = Inr fs" using pw ws by (rule os_makedirs_existing)
  have s2: "os_listdir ws fs = Inr (map fst es)" using pw ws by (rule os_listdir_plain)
  from os_makedirs_new[OF pbs cr fresh, of False] obtain fs2 where
    s3: "os_makedirs ?bs False fs = Inr fs2" and b2: "lookup fs2 ?bs = Some (Dir [])"
    and fr2: "\<forall>q. \<not> prefix q ?bs \<longrightarrow> lookup fs2 q = lookup fs q" by blast
  have w2: "lookup fs2 ws = Some (Dir es)" using fr2 n1 ws by simp
  have s4: "os_listdir ws fs2 = Inr (map fst es)" using pw w2 by (rule os_listdir_plain)
  from move_entries_all[OF n1 n2 pw pbs w2 b2 dist _ pes] obtain fs3 where
    s5: "move_entries ws ?bs (map fst es) fs2 = Inr fs3"
    and w3: "lookup fs3 ws = Some (Dir [])"
    and b3: "lookup fs3 ?bs = Some (Dir es)" by auto
  from init_marker_new[OF pw ppkg w3, of] obtain fs4 where
    s6: "init_marker (ws @ [pkg]) fs3 = Inr fs4"
    and w4: "lookup fs4 ws = Some (Dir [(pkg, marker_dir)])"
    and fr4: "\<forall>q. \<not> prefix ws q \<and> \<not> prefix q ws \<longrightarrow> lookup fs4 q = lookup fs3 q"
    by (auto simp: marker_dir_def)
  have b4: "lookup fs4 ?bs = Some (Dir es)" using fr4 n1 n2 b3 by simp
  have "\<exists>fs5. init_marker (ws @ [''tests'']) fs4 = Inr fs5 \<and>
      lookup fs5 ws =
        Some (Dir (if pkg = ''tests'' then [(''tests'', marker_dir)]
                   else [(pkg, marker_dir), (''tests'', marker_dir)])) \<and>
      lookup fs5 ?bs = Some (Dir es)"
  proof (cases "pkg = ''tests''")
    case True
    have nm: "map_of [(pkg, marker_dir)] ''tests'' = Some (Dir [(''__init__.py'', File [])])"
      using True by (simp add: marker_dir_def)
    from init_marker_existing[OF pw plain_tests w4 nm] obtain fs5 where
      "init_marker (ws @ [''tests'']) fs4 = Inr fs5"
      and "lookup fs5 ws = Some (Dir [(''tests'', marker_dir)])"
      and "\<forall>q. \<not> prefix ws q \<and> \<not> prefix q ws \<longrightarrow> lookup fs5 q = lookup fs4 q"
      using True by (auto simp: marker_dir_def)
    then show ?thesis using True b4 n1 n2 by auto
  next
    case False
    have nm: "map_of [(pkg, marker_dir)] ''tests'' = None" using False by simp
    from init_marker_new[OF pw plain_tests w4 nm] obtain fs5 where
      "init_marker (ws @ [''tests'']) fs4 = Inr fs5"
      and "lookup fs5 ws = Some (Dir [(pkg, marker_dir), (''tests'', marker_dir)])"
      and "\<forall>q. \<not> prefix ws q \<and> \<not> prefix q ws \<longrightarrow> lookup fs5 q = lookup fs4 q"
      using False by (auto simp: marker_dir_def)
    then show ?thesis using False b4 n1 n2 by auto
  qed
  then obtain fs5 where s7: "init_marker (ws @ [''tests'']) fs4 = Inr fs5"
    and w5: "lookup fs5 ws =
        Some (Dir (if pkg = ''tests'' then [(''tests'', marker_dir)]
                   else [(pkg, marker_dir), (''tests'', marker_dir)]))"
    and b5: "lookup fs5 ?bs = Some (Dir es)" by blast
  have "init_workspace
            \<lparr>workspace_directory = ws, backup_directory = bk, package_name = pkg,
             scripts = ss\<rparr> now fs = Inr fs5"
    using s1 s2 s3 s4 s5 s6 s7 ne jb jp jt
    by (simp add: init_workspace_def package_directory_def test_directory_def)
  then show ?thesis using w5 b5 by blast
qed

subsection \<open>Writing a file piece by piece\<close>

lemma modify_dir_keeps_dir: "\<exists>es'. modify_dir zs f (Dir es) = Dir es'"
  by (cases zs) (simp_all split: option.splits)

lemma put_keeps_dir:
  assumes d: "lookup g q = Some (Dir es)" and np: "\<not> prefix (r @ [x]) q"
  shows "\<exists>es'. lookup (put (r @ [x]) v g) q = Some (Dir es')"
proof (cases "prefix q r")
  case True
  then obtain zs where zs: "r = q @ zs" by (auto simp: prefix_def)
  have "lookup (put (r @ [x]) v g) q =
      map_option (modify_dir zs (AList.update x v)) (lookup g q)"
    unfolding put_def butlast_snoc last_snoc zs by (rule lookup_modify_ancestor)
  then show ?thesis using d modify_dir_keeps_dir[of zs "AList.update x v" es] by auto
next
  case False
  then show ?thesis using d lookup_put_other[OF np False] by simp
qed

lemma fold_file_write_same:
  "lookup g (r @ [x]) = Some (File c) \<Longrightarrow>
     lookup (fold (\<lambda>s. file_write (r @ [x]) (h s)) xs g) (r @ [x]) =
       Some (File (c @ concat (map h xs)))"
proof (induction xs arbitrary: g c)
  case Nil
  then show ?case by simp
next
  case (Cons a xs)
  from lookup_snoc_some[OF Cons.prems] obtain es where es: "lookup g r = Some (Dir es)"
    by blast
  have w: "file_write (r @ [x]) (h a) g = put (r @ [x]) (File (c @ h a)) g"
    using Cons.prems by (rule file_write_file)
  have "lookup (file_write (r @ [x]) (h a) g) (r @ [x]) = Some (File (c @ h a))"
    unfolding w using es by (rule lookup_put_same)
  from Cons.IH[OF this] show ?case by simp
qed

lemma file_write_other:
  "\<not> prefix (r @ [x]) q \<Longrightarrow> \<not> prefix q r \<Longrightarrow>
     lookup (file_write (r @ [x]) d g) q = lookup g q"
  by (simp add: file_write_def lookup_put_other split: option.splits node.splits)

lemma fold_file_write_other:
  "\<not> prefix (r @ [x]) q \<Longrightarrow> \<not> prefix q r \<Longrightarrow>
     lookup (fold (\<lambda>s. file_write (r @ [x]) (h s)) xs g) q = lookup g q"
  by (induction xs arbitrary: g) (simp_all add: file_write_other)

lemma file_write_keeps_dir:
  "lookup g q = Some (Dir es) \<Longrightarrow> \<not> prefix (r @ [x]) q \<Longrightarrow>
     \<exists>es'. lookup (file_write (r @ [x]) d g) q = Some (Dir es')"
  by (auto simp: file_write_def put_keeps_dir split: option.splits node.splits)

lemma fold_file_write_keeps_dir:
  "lookup g q = Some (Dir es) \<Longrightarrow> \<not> prefix (r @ [x]) q \<Longrightarrow>
     \<exists>es'. lookup (fold (\<lambda>s. file_write (r @ [x]) (h s)) xs g) q = Some (Dir es')"
proof (induction xs arbitrary: g es)
  case Nil
  then show ?case by simp
next
  case (Cons a xs)
  from file_write_keeps_dir[OF Cons.prems, of "h a"] obtain es1 where
    "lookup (file_write (r @ [x]) (h a) g) q = Some (Dir es1)" by blast
  from Cons.IH[OF this Cons.prems(2)] show ?case by simp
qed

text \<open>Opening for writing and then writing the pieces leaves their concatenation.\<close>

lemma write_pieces:
  assumes par: "lookup g r = Some (Dir es)" and nd: "not_a_directory g (r @ [x])"
  shows "\<exists>g1. open_w (r @ [x]) g = Inr g1 \<and>
      lookup (fold (\<lambda>s. file_write (r @ [x]) (h s)) xs g1) (r @ [x]) =
        Some (File (concat (map h xs))) \<and>
      (\<forall>q. \<not> prefix (r @ [x]) q \<and> \<not> prefix q r \<longrightarrow>
         lookup (fold (\<lambda>s. file_write (r @ [x]) (h s)) xs g1) q = lookup g q) \<and>
      (\<forall>q ds. lookup g q = Some (Dir ds) \<and> \<not> prefix (r @ [x]) q \<longrightarrow>
         (\<exists>ds'. lookup (fold (\<lambda>s. file_write (r @ [x]) (h s)) xs g1) q = Some (Dir ds')))"
proof -
  define g1 where "g1 = put (r @ [x]) (File []) g"
  have o: "open_w (r @ [x]) g = Inr g1" unfolding g1_def using par nd by (rule open_w_ok)
  have f1: "lookup g1 (r @ [x]) = Some (File [])"
    unfolding g1_def using par by (rule lookup_put_same)
  have a: "lookup (fold (\<lambda>s. file_write (r @ [x]) (h s)) xs g1) (r @ [x]) =
        Some (File (concat (map h xs)))"
    using fold_file_write_same[OF f1, of h xs] by simp
  have b: "lookup (fold (\<lambda>s. file_write (r @ [x]) (h s)) xs g1) q = lookup g q"
    if "\<not> prefix (r @ [x]) q \<and> \<not> prefix q r" for q
    using that by (simp add: fold_file_write_other g1_def lookup_put_other)
  have c: "\<exists>ds'. lookup (fold (\<lambda>s. file_write (r @ [x]) (h s)) xs g1) q = Some (Dir ds')"
    if "lookup g q = Some (Dir ds) \<and> \<not> prefix (r @ [x]) q" for q ds
  proof -
    from that put_keeps_dir[of g q ds r x "File []"] obtain d1 where
      "lookup g1 q = Some (Dir d1)" unfolding g1_def by blast
    then show ?thesis using that fold_file_write_keeps_dir by blast
  qed
  show ?thesis using o a b c by blast
qed

subsection \<open>write_to_file and write_files\<close>

lemma not_prefix_longer: "length q < length p \<Longrightarrow> \<not> prefix p q"
  by (auto dest: prefix_length_le)

lemma not_prefix_same_length: "length p = length q \<Longrightarrow> p \<noteq> q \<Longrightarrow> \<not> prefix p q"
  by (auto simp: prefix_def)

lemma script_test_paths_differ:
  "script_filepath ws pkg m \<noteq> test_filepath ws m"
  by (auto simp: script_filepath_def test_filepath_def)

lemma write_to_file_contents:
  assumes pd: "lookup fs (ws @ [pkg]) = Some (Dir ps)"
    and td: "lookup fs (ws @ [''tests'']) = Some (Dir ts)"
    and n1: "not_a_directory fs (script_filepath ws pkg (module_name self))"
    and n2: "not_a_directory fs (test_filepath ws (module_name self))"
  shows "\<exists>fs'. write_to_file self ws pkg fs = Inr fs' \<and>
      lookup fs' (script_filepath ws pkg (module_name self)) =
        Some (File (concat (map (\<lambda>s. content (suite_function s)) (functions self)))) \<and>
      lookup fs' (test_filepath ws (module_name self)) =
        Some (File (concat (map (\<lambda>s. content (suite_test s)) (functions self)))) \<and>
      (\<exists>ps'. lookup fs' (ws @ [pkg]) = Some (Dir ps')) \<and>
      (\<exists>ts'. lookup fs' (ws @ [''tests'']) = Some (Dir ts'))"
proof -
  let ?m = "module_name self"
  let ?x = "?m @ ''.py''" and ?y = "''test_'' @ ?m @ ''.py''"
  let ?sp = "(ws @ [pkg]) @ [?x]" and ?tp = "(ws @ [''tests'']) @ [?y]"
  let ?hf = "\<lambda>s. content (suite_function s)" and ?ht = "\<lambda>s. content (suite_test s)"
  have sp: "script_filepath ws pkg ?m = ?sp" by (simp add: script_filepath_def)
  have tp: "test_filepath ws ?m = ?tp" by (simp add: test_filepath_def)
  have ne: "?sp \<noteq> ?tp" by auto
  have st: "\<not> prefix ?sp ?tp" "\<not> prefix ?tp ?sp"
    using ne by (auto intro!: not_prefix_same_length)
  have sd: "\<not> prefix ?sp (ws @ [pkg])" "\<not> prefix ?sp (ws @ [''tests''])"
    "\<not> prefix ?tp (ws @ [pkg])" "\<not> prefix ?tp (ws @ [''tests''])"
    by (auto intro!: not_prefix_longer)
  from write_pieces[OF pd, of ?x ?hf "functions self"] n1 obtain fs1 where
    o1: "open_w ?sp fs = Inr fs1"
    and c1: "lookup (fold (\<lambda>s. file_write ?sp (?hf s)) (functions self) fs1) ?sp =
        Some (File (concat (map ?hf (functions self))))"
    and f1: "\<forall>q. \<not> prefix ?sp q \<and> \<not> prefix q (ws @ [pkg]) \<longrightarrow>
         lookup (fold (\<lambda>s. file_write ?sp (?hf s)) (functions self) fs1) q = lookup fs q"
    and d1: "\<forall>q ds. lookup fs q = Some (Dir ds) \<and> \<not> prefix ?sp q \<longrightarrow>
         (\<exists>ds'. lookup (fold (\<lambda>s. file_write ?sp (?hf s)) (functions self) fs1) q
            = Some (Dir ds'))"
    unfolding sp by blast
  define fs2 where "fs2 = fold (\<lambda>s. file_write ?sp (?hf s)) (functions self) fs1"
  obtain ps2 where p2: "lookup fs2 (ws @ [pkg]) = Some (Dir ps2)"
    using d1 pd sd(1) unfolding fs2_def by blast
  obtain ts2 where t2: "lookup fs2 (ws @ [''tests'']) = Some (Dir ts2)"
    using d1 td sd(2) unfolding fs2_def by blast
  have "\<not> prefix ?tp (ws @ [pkg])" by (rule sd(3))
  then have "lookup fs2 ?tp = lookup fs ?tp" using f1 st(1) unfolding fs2_def by blast
  then have n2': "not_a_directory fs2 ?tp" using n2 unfolding tp not_a_directory_def by simp
  from write_pieces[OF t2 n2', of ?ht "functions self"] obtain fs3 where
    o3: "open_w ?tp fs2 = Inr fs3"
    and c3: "lookup (fold (\<lambda>s. file_write ?tp (?ht s)) (functions self) fs3) ?tp =
        Some (File (concat (map ?ht (functions self))))"
    and f3: "\<forall>q. \<not> prefix ?tp q \<and> \<not> prefix q (ws @ [''tests'']) \<longrightarrow>
         lookup (fold (\<lambda>s. file_write ?tp (?ht s)) (functions self) fs3) q = lookup fs2 q"
    and d3: "\<forall>q ds. lookup fs2 q = Some (Dir ds) \<and> \<not> prefix ?tp q \<longrightarrow>
         (\<exists>ds'. lookup (fold (\<lambda>s. file_write ?tp (?ht s)) (functions self) fs3) q
            = Some (Dir ds'))"
    by blast
  define fs4 where "fs4 = fold (\<lambda>s. file_write ?tp (?ht s)) (functions self) fs3"
  have r: "write_to_file self ws pkg fs = Inr fs4"
    using o1 o3 unfolding write_to_file_def sp tp fs4_def fs2_def by simp
  have "\<not> prefix ?sp (ws @ [''tests''])" by (rule sd(2))
  then have "lookup fs4 ?sp = lookup fs2 ?sp" using f3 st(2) unfolding fs4_def by blast
  then have a: "lookup fs4 ?sp = Some (File (concat (map ?hf (functions self))))"
    using c1 unfolding fs2_def by simp
  have b: "lookup fs4 ?tp = Some (File (concat (map ?ht (functions self))))"
    using c3 unfolding fs4_def by simp
  have c: "\<exists>ps'. lookup fs4 (ws @ [pkg]) = Some (Dir ps')"
    using d3 p2 sd(3) unfolding fs4_def by blast
  have d: "\<exists>ts'. lookup fs4 (ws @ [''tests'']) = Some (Dir ts')"
    using d3 t2 sd(4) unfolding fs4_def by blast
  show ?thesis using r a b c d unfolding sp tp by blast
qed

lemma file_not_a_directory: "lookup fs p = Some (File c) \<Longrightarrow> not_a_directory fs p"
  by (simp add: not_a_directory_def)

lemma write_files_loop_last:
  "\<forall>s \<in> set ss. module_name s = m \<Longrightarrow> ss \<noteq> [] \<Longrightarrow>
   lookup fs (ws @ [pkg]) = Some (Dir ps) \<Longrightarrow>
   lookup fs (ws @ [''tests'']) = Some (Dir ts) \<Longrightarrow>
   not_a_directory fs (script_filepath ws pkg m) \<Longrightarrow>
   not_a_directory fs (test_filepath ws m) \<Longrightarrow>
   \<exists>fs'. write_files_loop ss ws pkg fs = Inr fs' \<and>
      lookup fs' (script_filepath ws pkg m) =
        Some (File (concat (map (\<lambda>s. content (suite_function s)) (functions (last ss))))) \<and>
      lookup fs' (test_filepath ws m) =
        Some (File (concat (map (\<lambda>s. content (suite_test s)) (functions (last ss)))))"
proof (induction ss arbitrary: fs ps ts)
  case Nil
  then show ?case by simp
next
  case (Cons s rest)
  have m: "module_name s = m" using Cons.prems(1) by simp
  from write_to_file_contents[OF Cons.prems(3,4), of s] Cons.prems(5,6) m
  obtain fs1 ps1 ts1 where w: "write_to_file s ws pkg fs = Inr fs1"
    and a: "lookup fs1 (script_filepath ws pkg m) =
        Some (File (concat (map (\<lambda>s. content (suite_function s)) (functions s))))"
    and b: "lookup fs1 (test_filepath ws m) =
        Some (File (concat (map (\<lambda>s. content (suite_test s)) (functions s))))"
    and p1: "lookup fs1 (ws @ [pkg]) = Some (Dir ps1)"
    and t1: "lookup fs1 (ws @ [''tests'']) = Some (Dir ts1)"
    by auto
  show ?case
  proof (cases "rest = []")
    case True
    then show ?thesis using w a b by simp
  next
    case False
    have all: "\<forall>s \<in> set rest. module_name s = m" using Cons.prems(1) by simp
    from Cons.IH[OF all False p1 t1 file_not_a_directory[OF a] file_not_a_directory[OF b]]
    show ?thesis using w False by simp
  qed
qed

lemma package_add_function_appends:
  assumes "package_add_function ev self goal w = (Inr u, self', w')"
  shows "\<exists>s. scripts self' = scripts self @ [s] \<and> module_name s = ''main'' \<and>
       length (functions s) = 1"
  using assms
  by (auto simp: package_add_function_def script_add_function_def Let_def
      split: prod.splits sum.splits)

subsection \<open>The claims about the workspace\<close>



text \<open>
  Claim C4, as the code has it. Let the workspace root be a directory with at least
  one entry and let the package name be a plain name. Let also the run not raise: the
  backup folder named by the current timestamp does not exist yet and can be created
  below the backup root, and the backup root does not lie inside the workspace. Then
  \<open>init_workspace\<close> succeeds; afterwards the timestamped backup folder holds exactly
  the former entries of the root, and the root holds only the package directory and
  the test directory (one directory when the package is named \<open>tests\<close>), each with an
  empty \<open>__init__.py\<close>. The directories are given by plain names, as are the listed
  entries and the timestamp.
\<close>

theorem init_workspace_backs_up:
  assumes "lookup fs (workspace_directory self) = Some (Dir es)"
    and "es \<noteq> []"
    and "distinct (map fst es)"
    and "\<forall>n \<in> fst ` set es. plain_name n"
    and "lookup fs (backup_directory self @ [now]) = None"
    and "creatable fs (backup_directory self @ [now])"
    and "\<not> prefix (workspace_directory self) (backup_directory self)"
    and "plain_path (workspace_directory self)"
    and "plain_path (backup_directory self)"
    and "plain_name now"
    and "plain_name (package_name self)"
  shows "\<exists>fs'. init_workspace self now fs = Inr fs' \<and>
      lookup fs' (workspace_directory self) =
        Some (Dir (if package_name self = ''tests'' then [(''tests'', marker_dir)]
                   else [(package_name self, marker_dir), (''tests'', marker_dir)])) \<and>
      lookup fs' (backup_directory self @ [now]) = Some (Dir es)"
proof -
  obtain ws bk pkg ss where self: "self =
      \<lparr>workspace_directory = ws, backup_directory = bk, package_name = pkg, scripts = ss\<rparr>"
    by (cases self)
  show ?thesis
    using assms init_workspace_general[of fs ws es bk now pkg ss] unfolding self
    by (cases "pkg = ''tests''") simp_all
qed

theorem init_workspace_backs_up_witness:
  "lookup fs_example [''workspace''] = Some (Dir old_workspace)
   \<and> old_workspace \<noteq> [] \<and> distinct (map fst old_workspace)
   \<and> map fst old_workspace = [''testpackage'', ''tests'', ''notes.txt'']
   \<and> plain_name ''tests'' \<and> plain_name ''notes.txt''
   \<and> lookup fs_example [''backup'', ''20240101-120000''] = None
   \<and> creatable fs_example [''backup'', ''20240101-120000'']
   \<and> \<not> prefix [''workspace''] [''backup'']
   \<and> plain_path [''workspace''] \<and> plain_path [''backup'']
   \<and> plain_name ''20240101-120000'' \<and> plain_name ''testpackage''
   \<and> (\<exists>fs'. init_workspace package_example ''20240101-120000'' fs_example = Inr fs'
        \<and> lookup fs' [''workspace''] =
             Some (Dir [(''testpackage'', marker_dir), (''tests'', marker_dir)])
        \<and> lookup fs' [''backup'', ''20240101-120000''] = Some (Dir old_workspace))"
proof -
  have h1: "lookup fs_example (workspace_directory package_example) = Some (Dir old_workspace)"
    and h2: "old_workspace \<noteq> []"
    and h3: "distinct (map fst old_workspace)"
    and h4: "\<forall>n \<in> fst ` set old_workspace. plain_name n"
    and h5: "lookup fs_example (backup_directory package_example @ [''20240101-120000''])
        = None"
    and h6: "creatable fs_example (backup_directory package_example @ [''20240101-120000''])"
    and h7: "\<not> prefix (workspace_directory package_example) (backup_directory package_example)"
    and h8: "plain_path (workspace_directory package_example)"
    and h9: "plain_path (backup_directory package_example)"
    and h10: "plain_name ''20240101-120000''"
    and h11: "plain_name (package_name package_example)"
    by (simp_all add: fs_example_def old_workspace_def package_example_def creatable_def
        plain_name_def plain_path_def)
  have "\<exists>fs'. init_workspace package_example ''20240101-120000'' fs_example = Inr fs'
        \<and> lookup fs' [''workspace''] =
             Some (Dir [(''testpackage'', marker_dir), (''tests'', marker_dir)])
        \<and> lookup fs' [''backup'', ''20240101-120000''] = Some (Dir old_workspace)"
    using init_workspace_backs_up[OF h1 h2 h3 h4 h5 h6 h7 h8 h9 h10 h11]
    by (simp add: package_example_def)
  moreover have "map fst old_workspace = [''testpackage'', ''tests'', ''notes.txt'']"
    and "plain_name ''tests''" and "plain_name ''notes.txt''"
    by (simp_all add: old_workspace_def plain_name_def)
  ultimately show ?thesis using h1 h2 h3 h5 h6 h7 h8 h9 h10 h11
    by (simp add: package_example_def)
qed

text \<open>
  Claim C4 as the specification words it (for every non-empty workspace root, the root
  is left with only the package and test directories) fails for the empty package
  name. \<open>os.path.join\<close> then names the workspace root itself, so the call returns
  normally with the regular file \<open>__init__.py\<close> in the root next to \<open>tests\<close>, and
  with no package directory.
\<close>

theorem init_workspace_empty_package_name:
  "lookup fs_example (workspace_directory package_empty_name) = Some (Dir old_workspace)
   \<and> old_workspace \<noteq> []
   \<and> lookup fs_example (backup_directory package_empty_name @ [''20240101-120000'']) = None
   \<and> package_directory package_empty_name = [''workspace'', []]
   \<and> init_workspace package_empty_name ''20240101-120000'' fs_example =
       Inr (Dir [(''workspace'',
                    Dir [(''__init__.py'', File []), (''tests'', marker_dir)]),
                 (''README'', File ''hello''),
                 (''backup'', Dir [(''20240101-120000'', Dir old_workspace)])])"
  by code_simp

text \<open>
  Claim C9. A successful \<open>PythonPackage.add_function\<close> appends one script, named
  \<open>main\<close>, with exactly one suite. Hence in a package built by such calls every script
  writes to the same module path and the same test path, and when the package holds
  scripts (in particular two or more) \<open>write_files\<close> succeeds and leaves in both files
  the contents of the last script only: what the earlier scripts wrote is replaced
  without an error.
\<close>

theorem add_function_scripts_overwrite:
  "(package_add_function ev self goal w = (Inr u, self', w') \<longrightarrow>
      (\<exists>s. scripts self' = scripts self @ [s] \<and> module_name s = ''main'' \<and>
           length (functions s) = 1))
   \<and> ((\<forall>s \<in> set (scripts self). module_name s = ''main'') \<and> scripts self \<noteq> [] \<and>
       lookup fs (workspace_directory self @ [package_name self]) = Some (Dir ps) \<and>
       lookup fs (workspace_directory self @ [''tests'']) = Some (Dir ts) \<and>
       not_a_directory fs
         (script_filepath (workspace_directory self) (package_name self) ''main'') \<and>
       not_a_directory fs (test_filepath (workspace_directory self) ''main'') \<longrightarrow>
      (\<forall>s \<in> set (scripts self).
         script_filepath (workspace_directory self) (package_name self) (module_name s) =
           script_filepath (workspace_directory self) (package_name self) ''main'' \<and>
         test_filepath (workspace_directory self) (module_name s) =
           test_filepath (workspace_directory self) ''main'') \<and>
      (\<exists>fs'. write_files self fs = Inr fs' \<and>
         lookup fs' (script_filepath (workspace_directory self) (package_name self) ''main'') =
           Some (File (concat (map (\<lambda>s. content (suite_function s))
                   (functions (last (scripts self)))))) \<and>
         lookup fs' (test_filepath (workspace_directory self) ''main'') =
           Some (File (concat (map (\<lambda>s. content (suite_test s))
                   (functions (last (scripts self))))))))"
proof (intro conjI impI)
  assume "package_add_function ev self goal w = (Inr u, self', w')"
  then show "\<exists>s. scripts self' = scripts self @ [s] \<and> module_name s = ''main'' \<and>
           length (functions s) = 1"
    by (rule package_add_function_appends)
next
  assume a: "(\<forall>s \<in> set (scripts self). module_name s = ''main'') \<and> scripts self \<noteq> [] \<and>
       lookup fs (workspace_directory self @ [package_name self]) = Some (Dir ps) \<and>
       lookup fs (workspace_directory self @ [''tests'']) = Some (Dir ts) \<and>
       not_a_directory fs
         (script_filepath (workspace_directory self) (package_name self) ''main'') \<and>
       not_a_directory fs (test_filepath (workspace_directory self) ''main'')"
  then show "\<forall>s \<in> set (scripts self).
         script_filepath (workspace_directory self) (package_name self) (module_name s) =
           script_filepath (workspace_directory self) (package_name self) ''main'' \<and>
         test_filepath (workspace_directory self) (module_name s) =
           test_filepath (workspace_directory self) ''main''"
    by simp
  from a show "\<exists>fs'. write_files self fs = Inr fs' \<and>
         lookup fs' (script_filepath (workspace_directory self) (package_name self) ''main'') =
           Some (File (concat (map (\<lambda>s. content (suite_function s))
                   (functions (last (scripts self)))))) \<and>
         lookup fs' (test_filepath (workspace_directory self) ''main'') =
           Some (File (concat (map (\<lambda>s. content (suite_test s))
                   (functions (last (scripts self))))))"
    unfolding write_files_def
    using write_files_loop_last[of "scripts self" "''main''" fs "workspace_directory self"
        "package_name self" ps ts]
    by blast
qed

theorem add_function_scripts_overwrite_witness:
  "(\<exists>s. scripts (fst (snd (package_add_function (env_fixed src_def_foo) package_example
            ''add two numbers'' session0))) = scripts package_example @ [s]
        \<and> module_name s = ''main'' \<and> length (functions s) = 1)
   \<and> length (scripts package_two_scripts) = 2
   \<and> (\<exists>fs'. write_files package_two_scripts fs_example = Inr fs'
        \<and> lookup fs' [''workspace'', ''testpackage'', ''main.py'']
             = Some (File ''def g(): pass'')
        \<and> lookup fs' [''workspace'', ''tests'', ''test_main.py'']
             = Some (File ''def test_g(): pass''))"
proof -
  let ?r = "package_add_function (env_fixed src_def_foo) package_example
            ''add two numbers'' session0"
  have ok: "fst ?r = Inr ()"
    by (simp add: package_add_function_def script_add_function_def
        generate_python_function_def generate_python_test_def gen_defs ex_defs str_defs)
  then have "?r = (Inr (), fst (snd ?r), snd (snd ?r))" by (metis prod.collapse)
  then have p1: "\<exists>s. scripts (fst (snd ?r)) = scripts package_example @ [s]
        \<and> module_name s = ''main'' \<and> length (functions s) = 1"
    using add_function_scripts_overwrite[of "env_fixed src_def_foo" package_example
        "''add two numbers''" session0 "()" "fst (snd ?r)" "snd (snd ?r)"]
    by blast
  have h1: "\<forall>s \<in> set (scripts package_two_scripts). module_name s = ''main''"
    and h2: "scripts package_two_scripts \<noteq> []"
    and h3: "lookup fs_example (workspace_directory package_two_scripts @
        [package_name package_two_scripts]) =
      Some (Dir [(''__init__.py'', File []), (''main.py'', File ''def f(): pass'')])"
    and h4: "lookup fs_example (workspace_directory package_two_scripts @ [''tests'']) =
      Some (Dir [(''__init__.py'', File []), (''test_main.py'', File ''def test_f(): pass'')])"
    and h5: "not_a_directory fs_example
         (script_filepath (workspace_directory package_two_scripts)
            (package_name package_two_scripts) ''main'')"
    and h6: "not_a_directory fs_example
         (test_filepath (workspace_directory package_two_scripts) ''main'')"
    and h7: "length (scripts package_two_scripts) = 2"
    by (simp_all add: package_two_scripts_def package_example_def fs_example_def old_workspace_def not_a_directory_def
        script_filepath_def test_filepath_def)
  have "\<exists>fs'. write_files package_two_scripts fs_example = Inr fs' \<and>
         lookup fs' (script_filepath (workspace_directory package_two_scripts)
             (package_name package_two_scripts) ''main'') =
           Some (File (concat (map (\<lambda>s. content (suite_function s))
                   (functions (last (scripts package_two_scripts)))))) \<and>
         lookup fs' (test_filepath (workspace_directory package_two_scripts) ''main'') =
           Some (File (concat (map (\<lambda>s. content (suite_test s))
                   (functions (last (scripts package_two_scripts))))))"
    using h1 h2 h3 h4 h5 h6
      add_function_scripts_overwrite[of _ package_two_scripts _ _ _ _ _ fs_example
        "[(''__init__.py'', File []), (''main.py'', File ''def f(): pass'')]"
        "[(''__init__.py'', File []), (''test_main.py'', File ''def test_f(): pass'')]"]
    by blast
  then have p2: "\<exists>fs'. write_files package_two_scripts fs_example = Inr fs'
        \<and> lookup fs' [''workspace'', ''testpackage'', ''main.py'']
             = Some (File ''def g(): pass'')
        \<and> lookup fs' [''workspace'', ''tests'', ''test_main.py'']
             = Some (File ''def test_g(): pass'')"
    by (simp add: package_two_scripts_def package_example_def script_filepath_def
        test_filepath_def suite_example_def)
  show ?thesis using p1 h7 p2 by blast
qed

end
